theory Spec2Isabelle
  imports Main "HOL-Library.Word"
begin

unbundle bit_operations_syntax

section \<open>Quicksave slots of the emulator: a model of savestates.c\<close>

text \<open>
  The module is modelled function by function. C strings are \<open>string\<close>s (the list ends
  where the terminating NUL stands, so a well-formed C string holds no NUL character), a
  nullable \<open>char*\<close> is a \<open>string option\<close>, and C \<open>int\<close> results are \<open>int\<close>, read as truth
  values the way C does (\<open>0\<close> is false).
\<close>

subsection \<open>The C library functions the module calls\<close>

text \<open>\<open>isdigit\<close> and \<open>isspace\<close> in the C locale.\<close>

definition isdigit :: "char \<Rightarrow> bool" where
  "isdigit c = (48 \<le> (of_char c :: nat) \<and> (of_char c :: nat) \<le> 57)"

definition isspace :: "char \<Rightarrow> bool" where
  "isspace c = ((of_char c :: nat) = 32 \<or> (9 \<le> (of_char c :: nat) \<and> (of_char c :: nat) \<le> 13))"

text \<open>\<open>strrchr s c\<close>: the suffix of \<open>s\<close> that starts at the last occurrence of \<open>c\<close>, or NULL.\<close>

fun strrchr :: "string \<Rightarrow> char \<Rightarrow> string option" where
  "strrchr [] c = None"
| "strrchr (x # xs) c =
     (case strrchr xs c of
        Some r \<Rightarrow> Some r
      | None \<Rightarrow> if x = c then Some (x # xs) else None)"

text \<open>
  \<open>strncmp a b n\<close>: compares at most \<open>n\<close> characters, as unsigned bytes; the end of a
  string is its NUL, which compares as 0.
\<close>

fun strncmp :: "string \<Rightarrow> string \<Rightarrow> nat \<Rightarrow> int" where
  "strncmp a b 0 = 0"
| "strncmp [] [] (Suc n) = 0"
| "strncmp [] (y # ys) (Suc n) = - int (of_char y)"
| "strncmp (x # xs) [] (Suc n) = int (of_char x)"
| "strncmp (x # xs) (y # ys) (Suc n) =
     (if x = y then strncmp xs ys n else int (of_char x) - int (of_char y))"

text \<open>\<open>strcmp\<close>: the same comparison with no bound on the length.\<close>

fun strcmp :: "string \<Rightarrow> string \<Rightarrow> int" where
  "strcmp [] [] = 0"
| "strcmp [] (y # ys) = - int (of_char y)"
| "strcmp (x # xs) [] = int (of_char x)"
| "strcmp (x # xs) (y # ys) =
     (if x = y then strcmp xs ys else int (of_char x) - int (of_char y))"

text \<open>
  The number that \<open>atoi\<close> reads: it skips white space, reads an optional sign and then
  the decimal digits that follow; with no digit there the number is 0.
\<close>

definition digit_val :: "char \<Rightarrow> int" where
  "digit_val c = int (of_char c) - 48"

definition atoi_digits :: "string \<Rightarrow> int" where
  "atoi_digits s = foldl (\<lambda>a c. a * 10 + digit_val c) 0 (takeWhile isdigit s)"

definition atoi_value :: "string \<Rightarrow> int" where
  "atoi_value s =
     (case dropWhile isspace s of
        [] \<Rightarrow> 0
      | c # r \<Rightarrow>
          if c = CHR ''-'' then - atoi_digits r
          else if c = CHR ''+'' then atoi_digits r
          else atoi_digits (c # r))"

text \<open>
  \<open>snprintf buffer n ...\<close> stores at most \<open>n - 1\<close> characters of the formatted text.
  \<open>fmt_s\<close> is the conversion \<open>%s\<close> (the C libraries of the target print a NULL argument as
  \<open>(null)\<close>), \<open>fmt_02d\<close> the conversion \<open>%02d\<close>: the decimal digits, a minus sign in front
  of a negative number, zeros after the sign up to a width of two.
\<close>

definition snprintf :: "nat \<Rightarrow> string \<Rightarrow> string" where
  "snprintf n s = take (n - 1) s"

definition fmt_s :: "string option \<Rightarrow> string" where
  "fmt_s a = (case a of None \<Rightarrow> ''(null)'' | Some s \<Rightarrow> s)"

definition digit_char :: "nat \<Rightarrow> char" where
  "digit_char d = char_of (48 + d)"

fun decimal :: "nat \<Rightarrow> string" where
  "decimal n = (if n < 10 then [digit_char n] else decimal (n div 10) @ [digit_char (n mod 10)])"

declare decimal.simps [simp del]

definition fmt_02d :: "int \<Rightarrow> string" where
  "fmt_02d i =
     (let sign = (if i < 0 then ''-'' else '''');
          digits = decimal (nat \<bar>i\<bar>)
      in sign @ replicate (2 - (length sign + length digits)) (CHR ''0'') @ digits)"

text \<open>\<open>memcpy dst src n\<close>: the first \<open>n\<close> bytes of \<open>dst\<close> become the first \<open>n\<close> bytes of \<open>src\<close>
  (both hold at least \<open>n\<close> bytes where C defines the call).\<close>

definition memcpy :: "'a list \<Rightarrow> 'a list \<Rightarrow> nat \<Rightarrow> 'a list" where
  "memcpy dst src n = take n src @ drop n dst"

subsection \<open>Data of the collaborators\<close>

type_synonym byte = "8 word"

text \<open>\<open>utils_file\<close>: a buffer and its length.\<close>

record utils_file =
  buffer :: "byte list"
  length' :: nat

text \<open>The machines of \<open>libspectrum_machine\<close>.\<close>

datatype libspectrum_machine =
    LIBSPECTRUM_MACHINE_48
  | LIBSPECTRUM_MACHINE_TC2048
  | LIBSPECTRUM_MACHINE_128
  | LIBSPECTRUM_MACHINE_PLUS2
  | LIBSPECTRUM_MACHINE_PENT
  | LIBSPECTRUM_MACHINE_PLUS2A
  | LIBSPECTRUM_MACHINE_PLUS3
  | LIBSPECTRUM_MACHINE_UNKNOWN
  | LIBSPECTRUM_MACHINE_16
  | LIBSPECTRUM_MACHINE_TC2068
  | LIBSPECTRUM_MACHINE_SCORP
  | LIBSPECTRUM_MACHINE_PLUS3E
  | LIBSPECTRUM_MACHINE_SE
  | LIBSPECTRUM_MACHINE_TS2068
  | LIBSPECTRUM_MACHINE_PENT512
  | LIBSPECTRUM_MACHINE_PENT1024
  | LIBSPECTRUM_MACHINE_48_NTSC
  | LIBSPECTRUM_MACHINE_128E

text \<open>
  What the module reads of a \<open>libspectrum_snap\<close>, through the accessors of the same
  names: the machine, the 128K paging register and the memory pages.
\<close>

record libspectrum_snap =
  libspectrum_snap_machine :: libspectrum_machine
  libspectrum_snap_out_128_memoryport :: byte
  libspectrum_snap_pages :: "int \<Rightarrow> byte list"

text \<open>
  A directory handle: the results that successive calls of \<open>compat_readdir\<close> give (past
  the last one the directory is at its end), and what \<open>compat_closedir\<close> returns.
\<close>

datatype compat_dir_result_t =
    COMPAT_DIR_RESULT_OK string
  | COMPAT_DIR_RESULT_END
  | COMPAT_DIR_RESULT_ERROR

record compat_dir =
  readdir_results :: "compat_dir_result_t list"
  closedir_result :: int

text \<open>
  The outcome of \<open>stat\<close>: success, failure with \<open>errno = ENOENT\<close>, or failure with another
  \<open>errno\<close>, given by its \<open>strerror\<close> text.
\<close>

datatype stat_result = STAT_OK | STAT_ENOENT | STAT_FAIL string

subsection \<open>The environment of the module\<close>

text \<open>
  Everything the module reads and does not define: the constants of the platform
  headers, the globals of the emulator, and the functions of the compatibility layer,
  of \<open>utils.c\<close>, of the snapshot code and of libspectrum, each as the function from its
  arguments to its result. The environment is the one a call of the module finds; what
  the call changes outside the module (a directory created, a snapshot written, a program
  opened) is recorded as a call, and nothing the module does reads it back within the
  same operation. The collaborators write neither the settings nor the static variables
  of the module.
\<close>

record world =
  PATH_MAX :: nat
  FUSE_DIR_SEP_STR :: string
  last_filename :: "string option"
  machine_current :: libspectrum_machine
  libspectrum_machine_name :: "libspectrum_machine \<Rightarrow> string"
  compat_get_config_path :: "string option"
  utils_last_filename :: "string option \<Rightarrow> int \<Rightarrow> string option"
  compat_chop_expressions :: "string list \<Rightarrow> string option \<Rightarrow> string option"
  stat :: "string \<Rightarrow> stat_result"
  compat_file_exists :: "string \<Rightarrow> int"
  compat_opendir :: "string \<Rightarrow> compat_dir option"
  compat_createdir :: "string \<Rightarrow> int"
  utils_read_file :: "string \<Rightarrow> int \<times> utils_file"
  libspectrum_snap_alloc :: libspectrum_snap
  libspectrum_snap_read :: "libspectrum_snap \<Rightarrow> byte list \<Rightarrow> nat \<Rightarrow> string \<Rightarrow> int \<times> libspectrum_snap"
  libspectrum_snap_free :: "libspectrum_snap \<Rightarrow> int"
  utils_open_file :: "string \<Rightarrow> int \<Rightarrow> int"
  snapshot_write :: "string \<Rightarrow> int"
  atoi_overflow :: "string \<Rightarrow> 32 word"

text \<open>
  \<open>atoi\<close> returns an \<open>int\<close> of 32 bits. Where the number read is in the range of \<open>int\<close>,
  it is that number. Where it is not, C leaves the behaviour undefined and the C library
  of the platform decides (glibc converts the \<open>long\<close> that \<open>strtol\<close> gives, others
  saturate): the result is the \<open>int\<close> that the environment gives for the string.
\<close>

definition atoi :: "world \<Rightarrow> string \<Rightarrow> int" where
  "atoi w s =
     (if - 2147483648 \<le> atoi_value s \<and> atoi_value s \<le> 2147483647 then atoi_value s
      else sint (atoi_overflow w s))"

text \<open>The three settings of \<open>settings_current\<close> that the module uses.\<close>

record settings_info =
  od_quicksave_format :: string
  od_quicksave_per_machine :: int
  od_quicksave_slot :: int

text \<open>The calls that act on the emulator, its user interface or the disk, in order.\<close>

datatype call =
    Call_fuse_emulation_pause
  | Call_fuse_emulation_unpause
  | Call_display_refresh_all
  | Call_utils_open_file string int
  | Call_snapshot_write string
  | Call_compat_createdir string
  | Call_ui_error string
  | Call_ui_widget_show_msg_update_info string

text \<open>
  The state the module writes: the settings, its two static variables, and the calls
  made so far (the latest last).
\<close>

record state =
  settings_current :: settings_info
  last_check_directory :: "string option"
  last_check_directory_result :: int
  calls :: "call list"

definition do_call :: "call \<Rightarrow> state \<Rightarrow> state" where
  "do_call c s = s\<lparr>calls := calls s @ [c]\<rparr>"

subsection \<open>The functions of savestates.c\<close>

text \<open>The pattern list \<open>re_expressions\<close>.\<close>

definition re_expressions :: "string list" where
  "re_expressions =
     [''(([[:space:]]|[-_])*)(([(]|[[])*[[:space:]]*)(disk|tape|side|part)(([[:space:]]|[[:punct:]])*)(([abcd1234])([[:space:]]*of[[:space:]]*[1234])*)([[:space:]]*([)]|[]])*)(([[:space:]]|[-_])*)'']"

definition check_dir_exist :: "world \<Rightarrow> string option \<Rightarrow> int" where
  "check_dir_exist w dir =
     (case dir of
        None \<Rightarrow> - 1
      | Some d \<Rightarrow>
          (case stat w d of
             STAT_OK \<Rightarrow> 1
           | STAT_ENOENT \<Rightarrow> 0
           | STAT_FAIL e \<Rightarrow> - 1))"

definition quicksave_get_current_program :: "world \<Rightarrow> string option" where
  "quicksave_get_current_program w =
     (case last_filename w of
        None \<Rightarrow> None
      | Some lf \<Rightarrow> compat_chop_expressions w re_expressions (utils_last_filename w (Some lf) 1))"

text \<open>
  \<open>utils_safe_strdup\<close> returns a copy of its argument: \<open>quicksave_get_current_dir\<close> and
  \<open>quicksave_get_filename\<close> return what \<open>snprintf\<close> has put in the buffer.
\<close>

definition quicksave_get_current_dir :: "world \<Rightarrow> state \<Rightarrow> string option" where
  "quicksave_get_current_dir w s =
     (case last_filename w of
        None \<Rightarrow> None
      | Some lf \<Rightarrow>
          (case compat_get_config_path w of
             None \<Rightarrow> None
           | Some cfgdir \<Rightarrow>
               let filename = quicksave_get_current_program w;
                   buffer =
                     (if od_quicksave_per_machine (settings_current s) \<noteq> 0
                      then snprintf (PATH_MAX w)
                             (cfgdir @ FUSE_DIR_SEP_STR w @ ''savestates'' @ FUSE_DIR_SEP_STR w
                               @ libspectrum_machine_name w (machine_current w)
                               @ FUSE_DIR_SEP_STR w @ fmt_s filename)
                      else snprintf (PATH_MAX w)
                             (cfgdir @ FUSE_DIR_SEP_STR w @ ''savestates'' @ FUSE_DIR_SEP_STR w
                               @ fmt_s filename))
               in Some buffer))"

definition quicksave_get_filename :: "world \<Rightarrow> state \<Rightarrow> int \<Rightarrow> string option" where
  "quicksave_get_filename w s slot =
     (case quicksave_get_current_dir w s of
        None \<Rightarrow> None
      | Some current_dir \<Rightarrow>
          Some (snprintf (PATH_MAX w)
                 (current_dir @ FUSE_DIR_SEP_STR w @ fmt_02d slot
                   @ od_quicksave_format (settings_current s))))"

definition is_savestate_name :: "world \<Rightarrow> state \<Rightarrow> string option \<Rightarrow> int" where
  "is_savestate_name w s name =
     (case name of
        None \<Rightarrow> 0
      | Some n \<Rightarrow>
          (case utils_last_filename w (Some n) 0 of
             None \<Rightarrow> 0
           | Some filename \<Rightarrow>
               if length filename \<noteq> 6 then 0
               else
                 (case strrchr filename (CHR ''.'') of
                    Some extension \<Rightarrow>
                      if strncmp extension (od_quicksave_format (settings_current s)) 4 \<noteq> 0 then 0
                      else if \<not> isdigit (filename ! 0) \<or> \<not> isdigit (filename ! 1) then 0
                      else 1
                  | None \<Rightarrow> 0)))"

text \<open>
  The loop of \<open>scan_directory_for_savestates\<close> over the results of \<open>compat_readdir\<close>:
  \<open>Some exist\<close> when the loop ends (\<open>done\<close>), \<open>None\<close> when it leaves through the
  \<open>COMPAT_DIR_RESULT_ERROR\<close> case.
\<close>

fun scan_loop :: "(string option \<Rightarrow> int) \<Rightarrow> compat_dir_result_t list \<Rightarrow> int option" where
  "scan_loop check_fn [] = Some 0"
| "scan_loop check_fn (COMPAT_DIR_RESULT_OK name # rest) =
     (if check_fn (Some name) \<noteq> 0 then Some 1 else scan_loop check_fn rest)"
| "scan_loop check_fn (COMPAT_DIR_RESULT_END # rest) = Some 0"
| "scan_loop check_fn (COMPAT_DIR_RESULT_ERROR # rest) = None"

definition scan_directory_for_savestates ::
  "world \<Rightarrow> string option \<Rightarrow> (string option \<Rightarrow> int) \<Rightarrow> int" where
  "scan_directory_for_savestates w dir check_fn =
     (case dir of
        None \<Rightarrow> 0
      | Some d \<Rightarrow>
          (case compat_opendir w d of
             None \<Rightarrow> 0
           | Some directory \<Rightarrow>
               (case scan_loop check_fn (readdir_results directory) of
                  None \<Rightarrow> 0
                | Some exist \<Rightarrow> if closedir_result directory \<noteq> 0 then 0 else exist)))"

text \<open>\<open>savetate_read_snapshot\<close> returns its error code and the snapshot it has filled.\<close>

definition savetate_read_snapshot ::
  "world \<Rightarrow> string option \<Rightarrow> libspectrum_snap \<Rightarrow> int \<times> libspectrum_snap" where
  "savetate_read_snapshot w snapshot snap =
     (case snapshot of
        None \<Rightarrow> (1, snap)
      | Some path \<Rightarrow>
          if compat_file_exists w path = 0 then (1, snap)
          else
            (case utils_read_file w path of
               (error, file) \<Rightarrow>
                 if error \<noteq> 0 then (error, snap)
                 else
                   (case libspectrum_snap_read w snap (buffer file) (length' file) path of
                      (error, snap') \<Rightarrow>
                        if error \<noteq> 0 then (error, snap') else (0, snap'))))"

text \<open>The \<open>switch\<close> of \<open>savestate_get_screen_for_slot\<close> on the machine of the snapshot.\<close>

definition screen_page :: "libspectrum_snap \<Rightarrow> int" where
  "screen_page snap =
     (case libspectrum_snap_machine snap of
        LIBSPECTRUM_MACHINE_PENT \<Rightarrow>
          if libspectrum_snap_out_128_memoryport snap AND 0x08 \<noteq> 0 then 7 else 5
      | LIBSPECTRUM_MACHINE_PENT512 \<Rightarrow>
          if libspectrum_snap_out_128_memoryport snap AND 0x08 \<noteq> 0 then 7 else 5
      | LIBSPECTRUM_MACHINE_PENT1024 \<Rightarrow>
          if libspectrum_snap_out_128_memoryport snap AND 0x08 \<noteq> 0 then 7 else 5
      | LIBSPECTRUM_MACHINE_SCORP \<Rightarrow>
          if libspectrum_snap_out_128_memoryport snap AND 0x08 \<noteq> 0 then 7 else 5
      | LIBSPECTRUM_MACHINE_PLUS3E \<Rightarrow>
          if libspectrum_snap_out_128_memoryport snap AND 0x08 \<noteq> 0 then 7 else 5
      | LIBSPECTRUM_MACHINE_PLUS2A \<Rightarrow>
          if libspectrum_snap_out_128_memoryport snap AND 0x08 \<noteq> 0 then 7 else 5
      | LIBSPECTRUM_MACHINE_PLUS3 \<Rightarrow>
          if libspectrum_snap_out_128_memoryport snap AND 0x08 \<noteq> 0 then 7 else 5
      | LIBSPECTRUM_MACHINE_PLUS2 \<Rightarrow>
          if libspectrum_snap_out_128_memoryport snap AND 0x08 \<noteq> 0 then 7 else 5
      | LIBSPECTRUM_MACHINE_128 \<Rightarrow>
          if libspectrum_snap_out_128_memoryport snap AND 0x08 \<noteq> 0 then 7 else 5
      | LIBSPECTRUM_MACHINE_128E \<Rightarrow>
          if libspectrum_snap_out_128_memoryport snap AND 0x08 \<noteq> 0 then 7 else 5
      | LIBSPECTRUM_MACHINE_SE \<Rightarrow>
          if libspectrum_snap_out_128_memoryport snap AND 0x08 \<noteq> 0 then 7 else 5
      | _ \<Rightarrow> 5)"

text \<open>\<open>savestate_get_screen_for_slot\<close> returns its error code and the \<open>screen\<close> it has set.\<close>

definition savestate_get_screen_for_slot :: "world \<Rightarrow> state \<Rightarrow> int \<Rightarrow> int \<times> utils_file" where
  "savestate_get_screen_for_slot w s slot =
     (let screen = \<lparr>buffer = replicate 6912 0, length' = 6912\<rparr>;
          savestate = quicksave_get_filename w s slot;
          snap = libspectrum_snap_alloc w
      in case savetate_read_snapshot w savestate snap of
           (error, snap) \<Rightarrow>
             if error \<noteq> 0 then (error, screen)
             else
               let page = screen_page snap;
                   screen = screen\<lparr>buffer :=
                     memcpy (buffer screen) (libspectrum_snap_pages snap page) (length' screen)\<rparr>;
                   error = libspectrum_snap_free w snap
               in if error \<noteq> 0 then (error, screen) else (0, screen))"

definition quicksave_create_dir :: "world \<Rightarrow> state \<Rightarrow> int \<times> state" where
  "quicksave_create_dir w s =
     (case quicksave_get_current_dir w s of
        None \<Rightarrow> (1, s)
      | Some savestate_dir \<Rightarrow>
          let exist = check_dir_exist w (Some savestate_dir)
          in if exist = 0 then
               (let s1 = do_call (Call_compat_createdir savestate_dir) s
                in if compat_createdir w savestate_dir = - 1
                   then (1, do_call (Call_ui_error
                           (''error creating savestate directory ''
                             @ [CHR 0x27] @ savestate_dir @ [CHR 0x27])) s1)
                   else (0, s1))
             else if exist = - 1 then
               (1, do_call (Call_ui_error
                     (''couldn't stat '' @ [CHR 0x27] @ savestate_dir @ [CHR 0x27] @ '': ''
                       @ (case stat w savestate_dir of STAT_FAIL e \<Rightarrow> e | _ \<Rightarrow> []))) s)
             else (0, s))"

definition check_current_savestate_exist :: "world \<Rightarrow> state \<Rightarrow> int \<Rightarrow> int" where
  "check_current_savestate_exist w s slot =
     (case quicksave_get_filename w s slot of
        None \<Rightarrow> 0
      | Some filename \<Rightarrow> if compat_file_exists w filename \<noteq> 0 then 1 else 0)"

definition check_any_savestate_exist :: "world \<Rightarrow> state \<Rightarrow> int \<times> state" where
  "check_any_savestate_exist w s =
     (case quicksave_get_current_dir w s of
        None \<Rightarrow> (0, s)
      | Some savestate_dir \<Rightarrow>
          if check_dir_exist w (Some savestate_dir) = 0 then (0, s)
          else
            let s' =
              (if last_check_directory s = None
                  \<or> strcmp savestate_dir (the (last_check_directory s)) \<noteq> 0
               then s\<lparr>last_check_directory := Some savestate_dir,
                      last_check_directory_result := 0\<rparr>
               else if last_check_directory_result s = 0
               then s\<lparr>last_check_directory_result :=
                        scan_directory_for_savestates w (Some savestate_dir)
                          (is_savestate_name w s)\<rparr>
               else s)
            in (last_check_directory_result s', s'))"

text \<open>
  The two internal operations, in the build for the target (\<open>MIYOO\<close> defined, so the
  status message carries the slot only).
\<close>

definition savestate_write_internal :: "world \<Rightarrow> state \<Rightarrow> int \<Rightarrow> int \<times> state" where
  "savestate_write_internal w s slot =
     (case quicksave_get_filename w s slot of
        None \<Rightarrow> (1, s)
      | Some filename \<Rightarrow>
          (case quicksave_create_dir w s of
             (r, s1) \<Rightarrow>
               if r \<noteq> 0 then (1, s1)
               else
                 let error = snapshot_write w filename;
                     s2 = do_call (Call_snapshot_write filename) s1
                 in if error \<noteq> 0
                    then (error, do_call (Call_ui_error
                            (''Error saving state to slot '' @ fmt_02d slot)) s2)
                    else (error, do_call (Call_ui_widget_show_msg_update_info
                            (''Saved to slot '' @ fmt_02d slot)) s2)))"

definition savestate_read_internal :: "world \<Rightarrow> state \<Rightarrow> int \<Rightarrow> int \<times> state" where
  "savestate_read_internal w s slot =
     (if check_current_savestate_exist w s slot = 0 then (1, s)
      else
        (case quicksave_get_filename w s slot of
           None \<Rightarrow> (1, s)
         | Some filename \<Rightarrow>
             let error = utils_open_file w filename 9;
                 s1 = do_call (Call_utils_open_file filename 9) s
             in if error \<noteq> 0
                then (error, do_call (Call_ui_error
                        (''Error loading state from slot '' @ fmt_02d slot)) s1)
                else (error, do_call (Call_ui_widget_show_msg_update_info
                        (''Loaded slot '' @ fmt_02d slot)) s1)))"

definition quicksave_load :: "world \<Rightarrow> state \<Rightarrow> int \<times> state" where
  "quicksave_load w s =
     (if check_current_savestate_exist w s (od_quicksave_slot (settings_current s)) = 0
      then (0, s)
      else
        let s1 = do_call Call_fuse_emulation_pause s
        in case savestate_read_internal w s1 (od_quicksave_slot (settings_current s1)) of
             (error, s2) \<Rightarrow>
               let s3 = do_call Call_display_refresh_all s2;
                   s4 = do_call Call_fuse_emulation_unpause s3
               in (error, s4))"

definition quicksave_save :: "world \<Rightarrow> state \<Rightarrow> int \<times> state" where
  "quicksave_save w s =
     (let s1 = do_call Call_fuse_emulation_pause s
      in case savestate_write_internal w s1 (od_quicksave_slot (settings_current s1)) of
           (error, s2) \<Rightarrow> (error, do_call Call_fuse_emulation_unpause s2))"

definition set_od_quicksave_slot :: "int \<Rightarrow> state \<Rightarrow> state" where
  "set_od_quicksave_slot n s = s\<lparr>settings_current := (settings_current s)\<lparr>od_quicksave_slot := n\<rparr>\<rparr>"

definition savestate_read :: "world \<Rightarrow> state \<Rightarrow> string option \<Rightarrow> int \<times> state" where
  "savestate_read w s savestate =
     (case utils_last_filename w savestate 1 of
        None \<Rightarrow> (1, s)
      | Some slot \<Rightarrow>
          let s1 = set_od_quicksave_slot (atoi w slot) s
          in savestate_read_internal w s1 (od_quicksave_slot (settings_current s1)))"

definition savestate_write :: "world \<Rightarrow> state \<Rightarrow> string option \<Rightarrow> int \<times> state" where
  "savestate_write w s savestate =
     (case utils_last_filename w savestate 1 of
        None \<Rightarrow> (1, s)
      | Some slot \<Rightarrow>
          let s1 = set_od_quicksave_slot (atoi w slot) s
          in savestate_write_internal w s1 (od_quicksave_slot (settings_current s1)))"

subsection \<open>The name sanitizer\<close>

text \<open>
  Modelled from the spec: \<open>compat_chop_expressions\<close> belongs to the compatibility layer
  and is not under src/, nor is the regular-expression matcher it calls. The spec gives
  its output as the name "with every non-overlapping match of the rule set removed,
  left-to-right", the rules being "case-insensitive". A rule is matched the way POSIX
  \<open>regexec\<close> matches an extended regular expression: at the leftmost place where a
  match begins, the longest match that begins there.
\<close>

datatype regex =
    Never
  | Empty
  | OneOf "char list"
  | Alt regex regex
  | Seq regex regex
  | Many regex

fun matches_empty :: "regex \<Rightarrow> bool" where
  "matches_empty Never = False"
| "matches_empty Empty = True"
| "matches_empty (OneOf cs) = False"
| "matches_empty (Alt a b) = (matches_empty a \<or> matches_empty b)"
| "matches_empty (Seq a b) = (matches_empty a \<and> matches_empty b)"
| "matches_empty (Many a) = True"

text \<open>
  The strings an expression matches, and the longest match at the start of a string;
  the matcher defined next computes it (\<open>regexec_at_Some\<close> and \<open>regexec_at_None\<close> below).
\<close>

inductive matches :: "regex \<Rightarrow> string \<Rightarrow> bool" where
  m_Empty: "matches Empty []"
| m_OneOf: "c \<in> set cs \<Longrightarrow> matches (OneOf cs) [c]"
| m_Alt1: "matches a s \<Longrightarrow> matches (Alt a b) s"
| m_Alt2: "matches b s \<Longrightarrow> matches (Alt a b) s"
| m_Seq: "matches a s \<Longrightarrow> matches b t \<Longrightarrow> matches (Seq a b) (s @ t)"
| m_Many0: "matches (Many a) []"
| m_Many1: "matches a s \<Longrightarrow> matches (Many a) t \<Longrightarrow> matches (Many a) (s @ t)"

definition longest_match :: "regex \<Rightarrow> string \<Rightarrow> nat \<Rightarrow> bool" where
  "longest_match r s k =
     (k \<le> length s \<and> matches r (take k s)
      \<and> (\<forall>j\<le>length s. matches r (take j s) \<longrightarrow> j \<le> k))"

text \<open>\<open>alt\<close> and \<open>seq\<close> build an alternative and a sequence, dropping what can never match.\<close>

fun alt :: "regex \<Rightarrow> regex \<Rightarrow> regex" where
  "alt Never b = b"
| "alt a Never = a"
| "alt a b = Alt a b"

fun seq :: "regex \<Rightarrow> regex \<Rightarrow> regex" where
  "seq Never b = Never"
| "seq a Never = Never"
| "seq Empty b = b"
| "seq a b = Seq a b"

text \<open>\<open>after c r\<close> matches what \<open>r\<close> matches after a first character \<open>c\<close>.\<close>

fun after :: "char \<Rightarrow> regex \<Rightarrow> regex" where
  "after c Never = Never"
| "after c Empty = Never"
| "after c (OneOf cs) = (if c \<in> set cs then Empty else Never)"
| "after c (Alt a b) = alt (after c a) (after c b)"
| "after c (Seq a b) =
     (if matches_empty a then alt (seq (after c a) b) (after c b) else seq (after c a) b)"
| "after c (Many a) = seq (after c a) (Many a)"

text \<open>
  \<open>longest_from r s n best\<close> reads \<open>s\<close> with \<open>n\<close> characters already read and \<open>best\<close> the
  longest match seen so far; \<open>regexec_at r s\<close> is the length of the longest match of
  \<open>r\<close> that begins at the start of \<open>s\<close>.
\<close>

fun longest_from :: "regex \<Rightarrow> string \<Rightarrow> nat \<Rightarrow> nat option \<Rightarrow> nat option" where
  "longest_from r [] n best = (if matches_empty r then Some n else best)"
| "longest_from r (c # cs) n best =
     (if r = Never then best
      else longest_from (after c r) cs (Suc n) (if matches_empty r then Some n else best))"

definition regexec_at :: "regex \<Rightarrow> string \<Rightarrow> nat option" where
  "regexec_at r s = longest_from r s 0 None"

text \<open>
  \<open>chop r s\<close> removes the matches of \<open>r\<close> from \<open>s\<close>, left to right: where a match begins
  it is skipped and the scan goes on behind it, elsewhere the character is kept.
\<close>

fun chop :: "regex \<Rightarrow> string \<Rightarrow> string" where
  "chop r [] = []"
| "chop r (c # cs) =
     (case regexec_at r (c # cs) of
        Some (Suc n) \<Rightarrow> chop r (drop n cs)
      | _ \<Rightarrow> c # chop r cs)"

text \<open>The character classes \<open>[[:space:]]\<close> and \<open>[[:punct:]]\<close> of the C locale.\<close>

definition space_chars :: "char list" where
  "space_chars = [CHR '' '', CHR 0x09, CHR 0x0A, CHR 0x0B, CHR 0x0C, CHR 0x0D]"

definition punct_chars :: "char list" where
  "punct_chars = ''!'' @ [CHR 0x22] @ ''#$%&'' @ [CHR 0x27] @ ''()*+,-./:;<=>?@[''
                  @ [CHR 0x5C] @ '']^_`{|}~''"

definition space :: regex where
  "space = OneOf space_chars"

definition punct :: regex where
  "punct = OneOf punct_chars"

text \<open>A lower-case word, matched without regard to case.\<close>

fun icase :: "string \<Rightarrow> regex" where
  "icase [] = Empty"
| "icase [c] = OneOf [c, char_of (of_char c - (32::nat))]"
| "icase (c # cs) = Seq (OneOf [c, char_of (of_char c - (32::nat))]) (icase cs)"

text \<open>
  The one pattern of \<open>re_expressions\<close>, group by group:
  \<^verbatim>\<open>(([[:space:]]|[-_])*)\<close>,
  \<^verbatim>\<open>(([(]|[[])*[[:space:]]*)\<close>,
  \<^verbatim>\<open>(disk|tape|side|part)\<close>,
  \<^verbatim>\<open>(([[:space:]]|[[:punct:]])*)\<close>,
  \<^verbatim>\<open>(([abcd1234])([[:space:]]*of[[:space:]]*[1234])*)\<close>,
  \<^verbatim>\<open>([[:space:]]*([)]|[]])*)\<close> and
  \<^verbatim>\<open>(([[:space:]]|[-_])*)\<close>.
\<close>

definition re_group_1 :: regex where
  "re_group_1 = Many (Alt space (OneOf ''-_''))"

definition re_group_2 :: regex where
  "re_group_2 = Seq (Many (Alt (OneOf ''('') (OneOf ''[''))) (Many space)"

definition re_group_3 :: regex where
  "re_group_3 = Alt (icase ''disk'') (Alt (icase ''tape'') (Alt (icase ''side'') (icase ''part'')))"

definition re_group_4 :: regex where
  "re_group_4 = Many (Alt space punct)"

definition re_group_5 :: regex where
  "re_group_5 =
     Seq (OneOf ''abcd1234ABCD'')
         (Many (Seq (Many space) (Seq (icase ''of'') (Seq (Many space) (OneOf ''1234'')))))"

definition re_group_6 :: regex where
  "re_group_6 = Seq (Many space) (Many (Alt (OneOf '')'') (OneOf '']'')))"

definition re_group_7 :: regex where
  "re_group_7 = Many (Alt space (OneOf ''-_''))"

definition re_qualifier :: regex where
  "re_qualifier =
     Seq re_group_1 (Seq re_group_2 (Seq re_group_3 (Seq re_group_4
       (Seq re_group_5 (Seq re_group_6 re_group_7)))))"

text \<open>
  The characters that occur in the expression: no other character is in a match.
\<close>

fun alphabet :: "regex \<Rightarrow> char set" where
  "alphabet Never = {}"
| "alphabet Empty = {}"
| "alphabet (OneOf cs) = set cs"
| "alphabet (Alt a b) = alphabet a \<union> alphabet b"
| "alphabet (Seq a b) = alphabet a \<union> alphabet b"
| "alphabet (Many a) = alphabet a"

text \<open>
  \<open>same_letter k c\<close>: the character \<open>k\<close> is the lower-case letter \<open>c\<close> or its capital.
\<close>

definition same_letter :: "char \<Rightarrow> char \<Rightarrow> bool" where
  "same_letter k c = (k = c \<or> k = char_of (of_char c - (32::nat)))"

text \<open>
  Modelled from the spec: an identifier is "optionally followed by "of" and 1-4".
  \<open>of_parts\<close> is any number of times white space, \<open>of\<close> in either case, white space
  and a digit from 1 to 4.
\<close>

inductive of_parts :: "string \<Rightarrow> bool" where
  of_none: "of_parts []"
| of_more: "set sp \<subseteq> set space_chars \<Longrightarrow> list_all2 same_letter word ''of'' \<Longrightarrow>
            set sp' \<subseteq> set space_chars \<Longrightarrow> n \<in> set ''1234'' \<Longrightarrow> of_parts rest \<Longrightarrow>
            of_parts (sp @ word @ sp' @ [n] @ rest)"

text \<open>
  Modelled from the spec: a qualifier is "optional leading punctuation/whitespace, an
  optional bracket, a keyword among {disk, tape, side, part}, separators, an identifier
  token (a/b/c/d or 1-4, optionally followed by "of" and 1-4), an optional closing
  bracket, trailing whitespace/punctuation", case-insensitive. The characters of each
  piece are those of \<open>re_expressions\<close>: white space, hyphens and underscores lead and
  trail, the brackets are round or square and any number of them, white space may follow
  the opening brackets and precede the closing ones, and the separators are white space
  and punctuation. \<open>qualifier\<close> is compared with \<open>re_qualifier\<close> below.
\<close>

definition qualifier :: "string \<Rightarrow> bool" where
  "qualifier q =
     (\<exists>lead bra sp keyword seps ident ofs sp' ket trail.
        q = lead @ bra @ sp @ keyword @ seps @ [ident] @ ofs @ sp' @ ket @ trail
        \<and> set lead \<subseteq> set space_chars \<union> {CHR ''-'', CHR ''_''}
        \<and> set bra \<subseteq> {CHR ''('', CHR ''[''}
        \<and> set sp \<subseteq> set space_chars
        \<and> (list_all2 same_letter keyword ''disk'' \<or> list_all2 same_letter keyword ''tape''
            \<or> list_all2 same_letter keyword ''side'' \<or> list_all2 same_letter keyword ''part'')
        \<and> set seps \<subseteq> set space_chars \<union> set punct_chars
        \<and> ident \<in> set ''abcd1234ABCD''
        \<and> of_parts ofs
        \<and> set sp' \<subseteq> set space_chars
        \<and> set ket \<subseteq> {CHR '')'', CHR '']''}
        \<and> set trail \<subseteq> set space_chars \<union> {CHR ''-'', CHR ''_''})"

text \<open>
  \<open>regcomp\<close> with \<open>REG_EXTENDED | REG_ICASE\<close>, for the one pattern the module has; no
  other pattern text is modelled.
\<close>

definition regcomp :: "string \<Rightarrow> regex option" where
  "regcomp pattern = (if pattern = re_expressions ! 0 then Some re_qualifier else None)"

text \<open>
  Modelled from the spec: \<open>compat_chop_expressions\<close>, which is not under src/. For each
  expression of the list in turn, every match is removed from the name, left to right; a
  NULL name stays NULL.
\<close>

definition compat_chop_expressions_spec :: "string list \<Rightarrow> string option \<Rightarrow> string option" where
  "compat_chop_expressions_spec expressions filename =
     (case filename of
        None \<Rightarrow> None
      | Some f \<Rightarrow>
          Some (fold (\<lambda>e name. case regcomp e of Some r \<Rightarrow> chop r name | None \<Rightarrow> name)
                  expressions f))"

subsection \<open>Example environments\<close>

text \<open>
  \<open>utils_last_filename\<close> is in utils.c, not under src/. The spec calls its result the
  base name, "after stripping path components"; the callers that pass 1 for its second
  argument get the name without its extension (the slot label and the slot number come
  from it). The theorems take the function as the environment gives it; the example
  environments use the one defined here.
\<close>

definition last_component :: "string \<Rightarrow> string" where
  "last_component s = rev (takeWhile (\<lambda>c. c \<noteq> CHR ''/'') (rev s))"

definition strip_extension :: "string \<Rightarrow> string" where
  "strip_extension s =
     (if CHR ''.'' \<in> set s then rev (tl (dropWhile (\<lambda>c. c \<noteq> CHR ''.'') (rev s))) else s)"

text \<open>
  Modelled from the spec: \<open>utils_last_filename\<close>, which is not under src/. The base name
  is what follows the last separator, and without its extension it ends before its last
  dot; a NULL name stays NULL.
\<close>

definition example_last_filename :: "string option \<Rightarrow> int \<Rightarrow> string option" where
  "example_last_filename filename without_extension =
     (case filename of
        None \<Rightarrow> None
      | Some f \<Rightarrow>
          Some (if without_extension \<noteq> 0 then strip_extension (last_component f)
                else last_component f))"

definition zero_page :: "byte list" where
  "zero_page = replicate 16384 0"

definition example_snap :: libspectrum_snap where
  "example_snap =
     \<lparr>libspectrum_snap_machine = LIBSPECTRUM_MACHINE_48,
      libspectrum_snap_out_128_memoryport = 0,
      libspectrum_snap_pages = (\<lambda>page. zero_page)\<rparr>"

text \<open>
  \<open>atoi\<close> beyond the range of \<open>int\<close> as glibc has it with a \<open>long\<close> of 64 bits:
  \<open>strtol\<close> stops at the ends of the range of \<open>long\<close>, and the conversion to \<open>int\<close>
  keeps the low 32 bits.
\<close>

definition glibc_atoi_overflow :: "string \<Rightarrow> 32 word" where
  "glibc_atoi_overflow s =
     word_of_int (max (- 9223372036854775808) (min 9223372036854775807 (atoi_value s)))"

text \<open>
  A program \<open>Game.tap\<close> is loaded, the configuration is under \<open>/mnt/.fuse\<close>, the save
  directory exists and is empty, and no file exists.
\<close>

definition example_world :: world where
  "example_world =
     \<lparr>PATH_MAX = 4096,
      FUSE_DIR_SEP_STR = ''/'',
      last_filename = Some ''/roms/Game.tap'',
      machine_current = LIBSPECTRUM_MACHINE_48,
      libspectrum_machine_name = (\<lambda>m. ''Spectrum 48K''),
      compat_get_config_path = Some ''/mnt/.fuse'',
      utils_last_filename = example_last_filename,
      compat_chop_expressions = compat_chop_expressions_spec,
      stat = (\<lambda>path. STAT_OK),
      compat_file_exists = (\<lambda>path. 0),
      compat_opendir = (\<lambda>path. Some \<lparr>readdir_results = [], closedir_result = 0\<rparr>),
      compat_createdir = (\<lambda>path. 0),
      utils_read_file = (\<lambda>path. (0, \<lparr>buffer = [], length' = 0\<rparr>)),
      libspectrum_snap_alloc = example_snap,
      libspectrum_snap_read = (\<lambda>snap buffer len path. (0, snap)),
      libspectrum_snap_free = (\<lambda>snap. 0),
      utils_open_file = (\<lambda>path autoload. 0),
      snapshot_write = (\<lambda>path. 0),
      atoi_overflow = glibc_atoi_overflow\<rparr>"

definition example_state :: state where
  "example_state =
     \<lparr>settings_current =
        \<lparr>od_quicksave_format = ''.szx'', od_quicksave_per_machine = 0, od_quicksave_slot = 0\<rparr>,
      last_check_directory = None,
      last_check_directory_result = 0,
      calls = []\<rparr>"

text \<open>The same, with one save file, slot 0, in the save directory.\<close>

definition saved_world :: world where
  "saved_world =
     example_world
       \<lparr>compat_file_exists :=
          (\<lambda>path. if path = ''/mnt/.fuse/savestates/Game/00.szx'' then 1 else 0),
        compat_opendir :=
          (\<lambda>path. Some \<lparr>readdir_results =
                           [COMPAT_DIR_RESULT_OK ''.'', COMPAT_DIR_RESULT_OK ''..'',
                            COMPAT_DIR_RESULT_OK ''00.szx''],
                         closedir_result = 0\<rparr>)\<rparr>"


text \<open>
  The same as the first, with a configuration path of 4079 characters: the save
  directory takes the 4095 characters that a buffer of \<open>PATH_MAX\<close> can hold.
\<close>

definition long_world :: world where
  "long_world = example_world\<lparr>compat_get_config_path := Some (replicate 4079 (CHR ''a''))\<rparr>"

text \<open>The state of the examples with an extension of three characters.\<close>

definition three_char_state :: state where
  "three_char_state =
     example_state\<lparr>settings_current :=
       (settings_current example_state)\<lparr>od_quicksave_format := ''.sz''\<rparr>\<rparr>"

text \<open>
  The state after the save directory of the examples was checked and found to hold a
  save file, and a state where another directory was checked last.
\<close>

definition cached_state :: state where
  "cached_state =
     example_state\<lparr>last_check_directory := Some ''/mnt/.fuse/savestates/Game'',
                   last_check_directory_result := 1\<rparr>"

definition other_dir_state :: state where
  "other_dir_state =
     example_state\<lparr>last_check_directory := Some ''/mnt/.fuse/savestates/Other'',
                   last_check_directory_result := 0\<rparr>"

text \<open>The environment of the examples after the save directory was deleted.\<close>

definition deleted_world :: world where
  "deleted_world = example_world\<lparr>stat := (\<lambda>path. STAT_ENOENT)\<rparr>"

text \<open>
  Environments where the save directory cannot be opened, and where reading it fails
  after the first entry.
\<close>

definition unopenable_world :: world where
  "unopenable_world = example_world\<lparr>compat_opendir := (\<lambda>path. None)\<rparr>"

definition unreadable_world :: world where
  "unreadable_world =
     example_world
       \<lparr>compat_opendir :=
          (\<lambda>path. Some \<lparr>readdir_results =
                           [COMPAT_DIR_RESULT_OK ''.'', COMPAT_DIR_RESULT_ERROR,
                            COMPAT_DIR_RESULT_OK ''00.szx''],
                         closedir_result = 0\<rparr>)\<rparr>"

text \<open>The environment with one save file, where closing the directory fails.\<close>

definition unclosable_world :: world where
  "unclosable_world =
     example_world
       \<lparr>compat_opendir :=
          (\<lambda>path. Some \<lparr>readdir_results =
                           [COMPAT_DIR_RESULT_OK ''.'', COMPAT_DIR_RESULT_OK ''..'',
                            COMPAT_DIR_RESULT_OK ''00.szx''],
                         closedir_result = - 1\<rparr>)\<rparr>"

text \<open>
  A snapshot of a 128K machine with bit 3 of the paging register set, and the
  environment with one save file that parses to it.
\<close>

definition snap_128 :: libspectrum_snap where
  "snap_128 =
     \<lparr>libspectrum_snap_machine = LIBSPECTRUM_MACHINE_128,
      libspectrum_snap_out_128_memoryport = 0x08,
      libspectrum_snap_pages =
        (\<lambda>page. if page = 7 then replicate 16384 0xFF else replicate 16384 0x55)\<rparr>"

definition screen_world :: world where
  "screen_world =
     saved_world
       \<lparr>utils_read_file := (\<lambda>path. (0, \<lparr>buffer = [0x5A, 0x58, 0x53, 0x54], length' = 4\<rparr>)),
        libspectrum_snap_read := (\<lambda>snap buffer len path. (0, snap_128))\<rparr>"

text \<open>The environment of the examples where writing a snapshot fails.\<close>

definition write_fails_world :: world where
  "write_fails_world = example_world\<lparr>snapshot_write := (\<lambda>path. 1)\<rparr>"

declare chop.simps [simp del]

section \<open>Facts about the library functions\<close>

lemma of_char_nat_0_iff: "((of_char c :: nat) = 0) = (c = CHR 0x00)"
proof -
  have "(of_char (CHR 0x00) :: nat) = 0" by simp
  then show ?thesis by (metis of_char_eq_iff)
qed

lemma strncmp_eq_0:
  "CHR 0x00 \<notin> set a \<Longrightarrow> CHR 0x00 \<notin> set b \<Longrightarrow> (strncmp a b n = 0) = (take n a = take n b)"
  by (induction a b n rule: strncmp.induct) (auto simp: of_char_nat_0_iff)

lemma strcmp_same: "strcmp a a = 0"
  by (induction a) auto

lemma strcmp_eq_0:
  "CHR 0x00 \<notin> set a \<Longrightarrow> CHR 0x00 \<notin> set b \<Longrightarrow> (strcmp a b = 0) = (a = b)"
  by (induction a b rule: strcmp.induct) (auto simp: of_char_nat_0_iff)

lemma snprintf_fits: "length s < n \<Longrightarrow> snprintf n s = s"
  by (simp add: snprintf_def)

lemma isdigit_digit_char: "d < 10 \<Longrightarrow> isdigit (digit_char d)"
  by (simp add: isdigit_def digit_char_def)

lemma digit_char_0: "digit_char 0 = CHR ''0''"
  unfolding digit_char_def by (rule of_char_eqI [where ?'a = nat]) simp

lemma fmt_02d_two_digits:
  assumes "0 \<le> slot" "slot \<le> 99"
  shows "fmt_02d slot = [digit_char (nat slot div 10), digit_char (nat slot mod 10)]"
proof (cases "nat slot < 10")
  case True
  then have "decimal (nat slot) = [digit_char (nat slot)]"
    by (simp add: decimal.simps)
  with True assms show ?thesis
    by (simp add: fmt_02d_def digit_char_0)
next
  case False
  with assms have "nat slot div 10 < 10" by simp
  with False have "decimal (nat slot) = [digit_char (nat slot div 10), digit_char (nat slot mod 10)]"
    by (simp add: decimal.simps [of "nat slot"] decimal.simps [of "nat slot div 10"])
  with assms show ?thesis
    by (simp add: fmt_02d_def)
qed

section \<open>The example environments, evaluated\<close>

lemma regcomp_re_expressions: "regcomp (re_expressions ! 0) = Some re_qualifier"
  by (simp add: regcomp_def)

lemma re_expressions_single: "re_expressions = [re_expressions ! 0]"
  by (simp add: re_expressions_def)

lemma compat_chop_expressions_spec_re:
  "compat_chop_expressions_spec re_expressions (Some f) = Some (chop re_qualifier f)"
proof -
  have "compat_chop_expressions_spec [re_expressions ! 0] (Some f) = Some (chop re_qualifier f)"
    by (simp add: compat_chop_expressions_spec_def regcomp_re_expressions)
  then show ?thesis using re_expressions_single by simp
qed

lemma chop_Game: "chop re_qualifier ''Game'' = ''Game''"
  by code_simp

lemma example_last_filename_Game: "example_last_filename (Some ''/roms/Game.tap'') 1 = Some ''Game''"
  by (simp add: example_last_filename_def last_component_def strip_extension_def)

lemma example_program: "quicksave_get_current_program example_world = Some ''Game''"
  by (simp add: quicksave_get_current_program_def example_world_def example_last_filename_Game
        compat_chop_expressions_spec_re chop_Game)

lemma quicksave_get_current_dir_flat:
  assumes "last_filename w = Some lf" "compat_get_config_path w = Some cfgdir"
      and "od_quicksave_per_machine (settings_current s) = 0"
  shows "quicksave_get_current_dir w s =
         Some (snprintf (PATH_MAX w)
                (cfgdir @ FUSE_DIR_SEP_STR w @ ''savestates'' @ FUSE_DIR_SEP_STR w
                  @ fmt_s (quicksave_get_current_program w)))"
  using assms by (simp add: quicksave_get_current_dir_def)

lemma example_dir:
  "quicksave_get_current_dir example_world example_state = Some ''/mnt/.fuse/savestates/Game''"
proof -
  have "quicksave_get_current_dir example_world example_state =
        Some (snprintf (PATH_MAX example_world)
                (''/mnt/.fuse'' @ FUSE_DIR_SEP_STR example_world @ ''savestates''
                  @ FUSE_DIR_SEP_STR example_world
                  @ fmt_s (quicksave_get_current_program example_world)))"
    by (rule quicksave_get_current_dir_flat [where lf = "''/roms/Game.tap''"])
       (simp_all add: example_world_def example_state_def)
  also have "\<dots> = Some ''/mnt/.fuse/savestates/Game''"
    by (simp add: example_program fmt_s_def) (simp add: example_world_def snprintf_fits)
  finally show ?thesis .
qed

lemma quicksave_get_filename_eq:
  "quicksave_get_current_dir w s = Some d \<Longrightarrow>
   quicksave_get_filename w s slot =
   Some (snprintf (PATH_MAX w) (d @ FUSE_DIR_SEP_STR w @ fmt_02d slot
          @ od_quicksave_format (settings_current s)))"
  by (simp add: quicksave_get_filename_def)

lemma fmt_02d_0: "fmt_02d 0 = ''00''"
  using fmt_02d_two_digits [of 0] by (simp add: digit_char_0)

lemma example_filename_0:
  "quicksave_get_filename example_world example_state 0 = Some ''/mnt/.fuse/savestates/Game/00.szx''"
  by (simp add: quicksave_get_filename_eq [OF example_dir] fmt_02d_0)
     (simp add: example_world_def example_state_def snprintf_fits)

section \<open>The validator\<close>

lemma strrchr_None: "(strrchr s c = None) = (c \<notin> set s)"
  by (induction s) (auto split: option.splits)

lemma last_occ_unique:
  "p @ c # t = p' @ c # t' \<Longrightarrow> c \<notin> set t \<Longrightarrow> c \<notin> set t' \<Longrightarrow> p = p' \<and> t = t'"
proof (induction p arbitrary: p')
  case Nil
  then show ?case by (cases p') auto
next
  case (Cons a p)
  then show ?case by (cases p') auto
qed

lemma strrchr_Some:
  "(strrchr s c = Some r) = (\<exists>p t. s = p @ c # t \<and> c \<notin> set t \<and> r = c # t)"
proof (induction s arbitrary: r)
  case Nil
  then show ?case by simp
next
  case (Cons x xs)
  show ?case
  proof (cases "strrchr xs c")
    case None
    then have nin: "c \<notin> set xs" by (simp add: strrchr_None)
    show ?thesis
    proof
      assume "strrchr (x # xs) c = Some r"
      with None have "x = c" "r = x # xs" by (auto split: if_splits)
      with nin show "\<exists>p t. x # xs = p @ c # t \<and> c \<notin> set t \<and> r = c # t"
        by (intro exI[of _ "[]"] exI[of _ xs]) simp
    next
      assume "\<exists>p t. x # xs = p @ c # t \<and> c \<notin> set t \<and> r = c # t"
      then obtain p t where pt: "x # xs = p @ c # t" "c \<notin> set t" "r = c # t" by blast
      from pt(1) nin have "p = []" by (cases p) auto
      with pt None show "strrchr (x # xs) c = Some r" by simp
    qed
  next
    case (Some r')
    then obtain p t where pt: "xs = p @ c # t" "c \<notin> set t" "r' = c # t"
      using Cons.IH by blast
    show ?thesis
    proof
      assume "strrchr (x # xs) c = Some r"
      with Some have "r = r'" by simp
      with pt show "\<exists>p t. x # xs = p @ c # t \<and> c \<notin> set t \<and> r = c # t"
        by (intro exI[of _ "x # p"] exI[of _ t]) simp
    next
      assume "\<exists>p t. x # xs = p @ c # t \<and> c \<notin> set t \<and> r = c # t"
      then obtain p' t' where pt': "x # xs = p' @ c # t'" "c \<notin> set t'" "r = c # t'" by blast
      have "p' \<noteq> []"
      proof
        assume "p' = []"
        with pt' have "xs = t'" by simp
        with pt(1) pt'(2) show False by simp
      qed
      then obtain p'' where p'': "p' = x # p''" using pt'(1) by (cases p') auto
      with pt' have "xs = p'' @ c # t'" by simp
      with pt(1) have eq: "p @ c # t = p'' @ c # t'" by simp
      have "t = t'"
        using last_occ_unique [OF eq pt(2) pt'(2)] by simp
      with pt pt' Some show "strrchr (x # xs) c = Some r" by simp
    qed
  qed
qed

lemma isdigit_not_dot: "isdigit c \<Longrightarrow> c \<noteq> CHR ''.''"
  by (auto simp: isdigit_def)

lemma length6E:
  assumes "length xs = 6"
  obtains a b c d f g where "xs = [a, b, c, d, f, g]"
  using assms by (auto simp: numeral_eq_Suc length_Suc_conv)

lemma length3E:
  assumes "length xs = 3"
  obtains a b c where "xs = [a, b, c]"
  using assms by (auto simp: numeral_eq_Suc length_Suc_conv)

lemma nn_xxx_accept:
  assumes len: "length base = 6"
      and e: "length e = 3" "CHR ''.'' \<notin> set e"
      and nul: "CHR 0x00 \<notin> set base" "CHR 0x00 \<notin> set e"
      and suffix: "drop 2 base = CHR ''.'' # e"
  shows "\<exists>extension. strrchr base (CHR ''.'') = Some extension
           \<and> strncmp extension (CHR ''.'' # e) 4 = 0"
proof -
  have "base = take 2 base @ CHR ''.'' # e"
    using suffix by (metis append_take_drop_id)
  with e(2) have "strrchr base (CHR ''.'') = Some (CHR ''.'' # e)"
    unfolding strrchr_Some by blast
  moreover have "strncmp (CHR ''.'' # e) (CHR ''.'' # e) 4 = 0"
    using nul(2) by (subst strncmp_eq_0) auto
  ultimately show ?thesis by simp
qed

lemma nn_xxx_reject:
  assumes len: "length base = 6"
      and e: "length e = 3" "CHR ''.'' \<notin> set e"
      and nul: "CHR 0x00 \<notin> set base" "CHR 0x00 \<notin> set e"
      and ext: "strrchr base (CHR ''.'') = Some extension"
      and cmp: "strncmp extension (CHR ''.'' # e) 4 = 0"
      and dig: "isdigit (base ! 0)" "isdigit (base ! 1)"
  shows "drop 2 base = CHR ''.'' # e"
proof -
  from ext obtain p t where pt: "base = p @ CHR ''.'' # t" "extension = CHR ''.'' # t"
    unfolding strrchr_Some by blast
  have "CHR 0x00 \<notin> set extension" using nul(1) pt by auto
  moreover have "CHR 0x00 \<notin> set (CHR ''.'' # e)" using nul(2) by simp
  ultimately have "take 4 extension = take 4 (CHR ''.'' # e)"
    using cmp by (simp add: strncmp_eq_0)
  with e(1) have t4: "take 4 extension = CHR ''.'' # e" by simp
  then have "length (take 4 extension) = 4"
    using e(1) by simp
  then have "4 \<le> length extension"
    by simp
  with pt len have lp: "length p \<le> 2" by simp
  have "length p \<noteq> 0"
    using dig(1) pt(1) isdigit_not_dot[of "base ! 0"] by (cases p) auto
  moreover have "length p \<noteq> 1"
  proof
    assume "length p = 1"
    then obtain a where "p = [a]" by (cases p) auto
    with pt(1) have "base ! 1 = CHR ''.''" by simp
    with dig(2) isdigit_not_dot show False by blast
  qed
  ultimately have "length p = 2" using lp by arith
  with pt(1) have "drop 2 base = extension" by (simp add: pt(2))
  moreover from \<open>length p = 2\<close> len pt have "length extension = 4" by simp
  ultimately show ?thesis using t4 by simp
qed

text \<open>
  C2, as the code has it. For every directory-entry name whose base name
  \<open>utils_last_filename\<close> gives, and every configured extension of exactly four characters
  that is a dot followed by three characters other than a dot, \<open>is_savestate_name\<close>
  returns 1 if the base name has length 2 plus the length of the extension, its first two
  characters are digits and the characters after them are the extension, and 0 otherwise.
\<close>

theorem is_savestate_name_nn_xxx:
  assumes base: "utils_last_filename w (Some name) 0 = Some base"
      and fmt: "od_quicksave_format (settings_current s) = CHR ''.'' # e"
      and e: "length e = 3" "CHR ''.'' \<notin> set e"
      and nul: "CHR 0x00 \<notin> set base" "CHR 0x00 \<notin> set e"
  shows "is_savestate_name w s (Some name) =
         (if length base = 2 + length (od_quicksave_format (settings_current s))
             \<and> isdigit (base ! 0) \<and> isdigit (base ! 1)
             \<and> drop 2 base = od_quicksave_format (settings_current s)
          then 1 else 0)"
proof (cases "length base = 6")
  case False
  with base fmt e show ?thesis by (simp add: is_savestate_name_def)
next
  case True
  have unfold: "is_savestate_name w s (Some name) =
        (case strrchr base (CHR ''.'') of
            Some extension \<Rightarrow>
              if strncmp extension (CHR ''.'' # e) 4 \<noteq> 0 then 0
              else if \<not> isdigit (base ! 0) \<or> \<not> isdigit (base ! 1) then 0 else 1
          | None \<Rightarrow> 0)"
    using True by (simp add: is_savestate_name_def base fmt cong: option.case_cong)
  show ?thesis
  proof (cases "isdigit (base ! 0) \<and> isdigit (base ! 1) \<and> drop 2 base = CHR ''.'' # e")
    case yes: True
    with nn_xxx_accept [OF True e nul] obtain extension where
      "strrchr base (CHR ''.'') = Some extension" "strncmp extension (CHR ''.'' # e) 4 = 0"
      by blast
    with yes True e(1) show ?thesis by (simp add: unfold fmt)
  next
    case no: False
    have "is_savestate_name w s (Some name) = 0"
    proof (cases "strrchr base (CHR ''.'')")
      case None
      then show ?thesis by (simp add: unfold)
    next
      case (Some extension)
      show ?thesis
      proof (rule ccontr)
        assume "is_savestate_name w s (Some name) \<noteq> 0"
        with Some have "strncmp extension (CHR ''.'' # e) 4 = 0"
          "isdigit (base ! 0)" "isdigit (base ! 1)"
          by (auto simp: unfold split: if_splits)
        with nn_xxx_reject [OF True e nul Some] no show False by blast
      qed
    qed
    with no show ?thesis by (simp add: fmt)
  qed
qed

lemma isdigit_0: "isdigit (CHR ''0'')"
  by (simp add: isdigit_def)

lemma example_last_filename_plain:
  assumes "CHR ''/'' \<notin> set f"
  shows "example_last_filename (Some f) 0 = Some f"
proof -
  have "takeWhile (\<lambda>c. c \<noteq> CHR ''/'') (rev f) = rev f"
    using assms by (auto simp: takeWhile_eq_all_conv)
  then have "last_component f = f"
    unfolding last_component_def by (simp only: rev_rev_ident)
  then show ?thesis
    by (simp add: example_last_filename_def)
qed

text \<open>The entry \<open>00.szx\<close> is accepted, the entry \<open>0a.szx\<close> is not.\<close>

theorem is_savestate_name_nn_xxx_witness:
  "utils_last_filename example_world (Some ''00.szx'') 0 = Some ''00.szx''
   \<and> utils_last_filename example_world (Some ''0a.szx'') 0 = Some ''0a.szx''
   \<and> od_quicksave_format (settings_current example_state) = CHR ''.'' # ''szx''
   \<and> length ''szx'' = 3 \<and> CHR ''.'' \<notin> set ''szx''
   \<and> CHR 0x00 \<notin> set ''00.szx'' \<and> CHR 0x00 \<notin> set ''0a.szx'' \<and> CHR 0x00 \<notin> set ''szx''
   \<and> is_savestate_name example_world example_state (Some ''00.szx'') = 1
   \<and> is_savestate_name example_world example_state (Some ''0a.szx'') = 0"
proof -
  have b1: "utils_last_filename example_world (Some ''00.szx'') 0 = Some ''00.szx''"
    by (simp add: example_world_def example_last_filename_plain)
  have b2: "utils_last_filename example_world (Some ''0a.szx'') 0 = Some ''0a.szx''"
    by (simp add: example_world_def example_last_filename_plain)
  have fmt: "od_quicksave_format (settings_current example_state) = CHR ''.'' # ''szx''"
    by (simp add: example_state_def)
  have e: "length ''szx'' = 3" "CHR ''.'' \<notin> set ''szx''" "CHR 0x00 \<notin> set ''szx''"
    by simp_all
  have n1: "CHR 0x00 \<notin> set ''00.szx''" and n2: "CHR 0x00 \<notin> set ''0a.szx''"
    by simp_all
  have "is_savestate_name example_world example_state (Some ''00.szx'') = 1"
    using is_savestate_name_nn_xxx [OF b1 fmt e(1) e(2) n1 e(3)]
    by (simp add: fmt isdigit_0)
  moreover have "is_savestate_name example_world example_state (Some ''0a.szx'') = 0"
    using is_savestate_name_nn_xxx [OF b2 fmt e(1) e(2) n2 e(3)]
    by (simp add: fmt isdigit_def)
  ultimately show ?thesis using b1 b2 fmt e n1 n2 by simp
qed

text \<open>
  C2 as stated fails for an extension of three characters: with \<open>.sz\<close> configured the
  entry \<open>00.sz\<close> has the shape the claim accepts, and the code rejects it, for its
  length is not 6; the entry \<open>000.sz\<close> has three digits, and the code accepts it.
\<close>

theorem is_savestate_name_three_characters:
  "length (od_quicksave_format (settings_current three_char_state)) = 3
   \<and> utils_last_filename example_world (Some ''00.sz'') 0 = Some ''00.sz''
   \<and> length ''00.sz'' = 2 + length (od_quicksave_format (settings_current three_char_state))
   \<and> isdigit (''00.sz'' ! 0) \<and> isdigit (''00.sz'' ! 1)
   \<and> drop 2 ''00.sz'' = od_quicksave_format (settings_current three_char_state)
   \<and> is_savestate_name example_world three_char_state (Some ''00.sz'') = 0
   \<and> utils_last_filename example_world (Some ''000.sz'') 0 = Some ''000.sz''
   \<and> length ''000.sz'' \<noteq> 2 + length (od_quicksave_format (settings_current three_char_state))
   \<and> is_savestate_name example_world three_char_state (Some ''000.sz'') = 1"
proof -
  have b1: "utils_last_filename example_world (Some ''00.sz'') 0 = Some ''00.sz''"
    by (simp add: example_world_def example_last_filename_plain)
  have b2: "utils_last_filename example_world (Some ''000.sz'') 0 = Some ''000.sz''"
    by (simp add: example_world_def example_last_filename_plain)
  have fmt: "od_quicksave_format (settings_current three_char_state) = ''.sz''"
    by (simp add: three_char_state_def example_state_def)
  have r1: "is_savestate_name example_world three_char_state (Some ''00.sz'') = 0"
    by (simp add: is_savestate_name_def b1)
  have r2: "is_savestate_name example_world three_char_state (Some ''000.sz'') = 1"
    by (simp add: is_savestate_name_def b2 fmt isdigit_0 strncmp_eq_0)
  show ?thesis
    using b1 b2 r1 r2 by (simp add: fmt isdigit_0)
qed

section \<open>The directory scan\<close>

lemma scan_loop_match:
  "\<forall>n\<in>set names. check_fn (Some n) = 0 \<Longrightarrow> check_fn (Some name) \<noteq> 0 \<Longrightarrow>
   scan_loop check_fn (map COMPAT_DIR_RESULT_OK names @ COMPAT_DIR_RESULT_OK name # rest) = Some 1"
  by (induction names) auto

lemma scan_loop_all:
  "\<forall>n\<in>set names. check_fn (Some n) = 0 \<Longrightarrow>
   scan_loop check_fn (map COMPAT_DIR_RESULT_OK names) = Some 0"
  by (induction names) auto

lemma scan_loop_end:
  "\<forall>n\<in>set names. check_fn (Some n) = 0 \<Longrightarrow>
   scan_loop check_fn (map COMPAT_DIR_RESULT_OK names @ COMPAT_DIR_RESULT_END # rest) = Some 0"
  by (induction names) auto

lemma scan_loop_error:
  "\<forall>n\<in>set names. check_fn (Some n) = 0 \<Longrightarrow>
   scan_loop check_fn (map COMPAT_DIR_RESULT_OK names @ COMPAT_DIR_RESULT_ERROR # rest) = None"
  by (induction names) auto

text \<open>
  C7, as the code has it. \<open>scan_directory_for_savestates\<close> returns 0 when the directory
  cannot be opened. When it opens and the entries enumerated first do not satisfy the
  predicate: if the next entry satisfies it, the result is 1 provided that closing the
  directory succeeds, and 0 if closing fails, whatever entries follow; if the enumeration
  ends there, the result is 0; if it reports an error there, the result is 0.
\<close>

theorem scan_directory_for_savestates_cases:
  "(compat_opendir w d = None \<longrightarrow> scan_directory_for_savestates w (Some d) check_fn = 0)
   \<and> (compat_opendir w d = Some directory \<and> (\<forall>n\<in>set names. check_fn (Some n) = 0) \<longrightarrow>
        (readdir_results directory
           = map COMPAT_DIR_RESULT_OK names @ COMPAT_DIR_RESULT_OK name # rest
         \<and> check_fn (Some name) \<noteq> 0 \<longrightarrow>
           scan_directory_for_savestates w (Some d) check_fn
             = (if closedir_result directory = 0 then 1 else 0))
      \<and> (readdir_results directory = map COMPAT_DIR_RESULT_OK names
          \<or> readdir_results directory
               = map COMPAT_DIR_RESULT_OK names @ COMPAT_DIR_RESULT_END # rest \<longrightarrow>
           scan_directory_for_savestates w (Some d) check_fn = 0)
      \<and> (readdir_results directory
            = map COMPAT_DIR_RESULT_OK names @ COMPAT_DIR_RESULT_ERROR # rest \<longrightarrow>
           scan_directory_for_savestates w (Some d) check_fn = 0))"
  by (auto simp: scan_directory_for_savestates_def scan_loop_match scan_loop_all scan_loop_end
        scan_loop_error)


lemma is_savestate_name_example:
  assumes "utils_last_filename w = example_last_filename"
  shows "is_savestate_name w example_state (Some ''.'') = 0"
    and "is_savestate_name w example_state (Some ''..'') = 0"
    and "is_savestate_name w example_state (Some ''00.szx'') = 1"
  by (simp_all add: is_savestate_name_def assms example_last_filename_plain example_state_def
        strncmp_eq_0 isdigit_0)

lemma saved_world_last_filename: "utils_last_filename saved_world = example_last_filename"
  by (simp add: saved_world_def example_world_def)

lemma unclosable_world_last_filename: "utils_last_filename unclosable_world = example_last_filename"
  by (simp add: unclosable_world_def example_world_def)

lemma unreadable_world_last_filename: "utils_last_filename unreadable_world = example_last_filename"
  by (simp add: unreadable_world_def example_world_def)

text \<open>
  The directory with the entries \<open>.\<close>, \<open>..\<close> and \<open>00.szx\<close>: the scan returns 1. The
  empty directory, the directory that cannot be opened, and the directory whose reading
  fails before \<open>00.szx\<close> is reached: the scan returns 0.
\<close>

theorem scan_directory_for_savestates_cases_witness:
  "compat_opendir saved_world ''/mnt/.fuse/savestates/Game''
     = Some \<lparr>readdir_results =
               map COMPAT_DIR_RESULT_OK [''.'', ''..''] @ COMPAT_DIR_RESULT_OK ''00.szx'' # [],
             closedir_result = 0\<rparr>
   \<and> is_savestate_name saved_world example_state (Some ''.'') = 0
   \<and> is_savestate_name saved_world example_state (Some ''..'') = 0
   \<and> is_savestate_name saved_world example_state (Some ''00.szx'') \<noteq> 0
   \<and> scan_directory_for_savestates saved_world (Some ''/mnt/.fuse/savestates/Game'')
        (is_savestate_name saved_world example_state) = 1
   \<and> compat_opendir example_world ''/mnt/.fuse/savestates/Game''
        = Some \<lparr>readdir_results = map COMPAT_DIR_RESULT_OK [], closedir_result = 0\<rparr>
   \<and> scan_directory_for_savestates example_world (Some ''/mnt/.fuse/savestates/Game'')
        (is_savestate_name example_world example_state) = 0
   \<and> compat_opendir unopenable_world ''/mnt/.fuse/savestates/Game'' = None
   \<and> scan_directory_for_savestates unopenable_world (Some ''/mnt/.fuse/savestates/Game'')
        (is_savestate_name unopenable_world example_state) = 0
   \<and> compat_opendir unreadable_world ''/mnt/.fuse/savestates/Game''
        = Some \<lparr>readdir_results =
                  map COMPAT_DIR_RESULT_OK [''.''] @ COMPAT_DIR_RESULT_ERROR
                    # [COMPAT_DIR_RESULT_OK ''00.szx''],
                closedir_result = 0\<rparr>
   \<and> is_savestate_name unreadable_world example_state (Some ''.'') = 0
   \<and> scan_directory_for_savestates unreadable_world (Some ''/mnt/.fuse/savestates/Game'')
        (is_savestate_name unreadable_world example_state) = 0"
proof -
  have opened: "compat_opendir saved_world ''/mnt/.fuse/savestates/Game''
     = Some \<lparr>readdir_results =
               map COMPAT_DIR_RESULT_OK [''.'', ''..''] @ COMPAT_DIR_RESULT_OK ''00.szx'' # [],
             closedir_result = 0\<rparr>"
    by (simp add: saved_world_def)
  have others: "\<forall>n\<in>set [''.'', ''..'']. is_savestate_name saved_world example_state (Some n) = 0"
    by (simp add: is_savestate_name_example [OF saved_world_last_filename])
  have match: "is_savestate_name saved_world example_state (Some ''00.szx'') \<noteq> 0"
    by (simp add: is_savestate_name_example [OF saved_world_last_filename])
  have found: "scan_directory_for_savestates saved_world (Some ''/mnt/.fuse/savestates/Game'')
        (is_savestate_name saved_world example_state) = 1"
    using scan_directory_for_savestates_cases
      [of saved_world "''/mnt/.fuse/savestates/Game''"
          "is_savestate_name saved_world example_state"
          "\<lparr>readdir_results =
               map COMPAT_DIR_RESULT_OK [''.'', ''..''] @ COMPAT_DIR_RESULT_OK ''00.szx'' # [],
             closedir_result = 0\<rparr>"
          "[''.'', ''..'']" "''00.szx''" "[]"]
      opened others match
    by simp
  have empty: "compat_opendir example_world ''/mnt/.fuse/savestates/Game''
        = Some \<lparr>readdir_results = map COMPAT_DIR_RESULT_OK [], closedir_result = 0\<rparr>"
    by (simp add: example_world_def)
  have none: "scan_directory_for_savestates example_world (Some ''/mnt/.fuse/savestates/Game'')
        (is_savestate_name example_world example_state) = 0"
    using scan_directory_for_savestates_cases
      [of example_world "''/mnt/.fuse/savestates/Game''"
          "is_savestate_name example_world example_state"
          "\<lparr>readdir_results = map COMPAT_DIR_RESULT_OK [], closedir_result = 0\<rparr>"
          "[]"]
      empty
    by simp
  have closed: "compat_opendir unopenable_world ''/mnt/.fuse/savestates/Game'' = None"
    by (simp add: unopenable_world_def)
  have unopened:
    "scan_directory_for_savestates unopenable_world (Some ''/mnt/.fuse/savestates/Game'')
        (is_savestate_name unopenable_world example_state) = 0"
    using scan_directory_for_savestates_cases
      [of unopenable_world "''/mnt/.fuse/savestates/Game''"
          "is_savestate_name unopenable_world example_state"]
      closed
    by simp
  have broken: "compat_opendir unreadable_world ''/mnt/.fuse/savestates/Game''
        = Some \<lparr>readdir_results =
                  map COMPAT_DIR_RESULT_OK [''.''] @ COMPAT_DIR_RESULT_ERROR
                    # [COMPAT_DIR_RESULT_OK ''00.szx''],
                closedir_result = 0\<rparr>"
    by (simp add: unreadable_world_def)
  have dot: "is_savestate_name unreadable_world example_state (Some ''.'') = 0"
    by (simp add: is_savestate_name_example [OF unreadable_world_last_filename])
  have failed:
    "scan_directory_for_savestates unreadable_world (Some ''/mnt/.fuse/savestates/Game'')
        (is_savestate_name unreadable_world example_state) = 0"
    using scan_directory_for_savestates_cases
      [of unreadable_world "''/mnt/.fuse/savestates/Game''"
          "is_savestate_name unreadable_world example_state"
          "\<lparr>readdir_results =
                  map COMPAT_DIR_RESULT_OK [''.''] @ COMPAT_DIR_RESULT_ERROR
                    # [COMPAT_DIR_RESULT_OK ''00.szx''],
                closedir_result = 0\<rparr>"
          "[''.'']" _ "[COMPAT_DIR_RESULT_OK ''00.szx'']"]
      broken dot
    by simp
  from opened match found empty none closed unopened broken dot failed show ?thesis
    by (simp add: is_savestate_name_example [OF saved_world_last_filename])
qed

text \<open>
  C7 as stated fails where closing the directory fails: the entry \<open>00.szx\<close> is
  enumerated and satisfies the predicate, and the scan returns 0.
\<close>

theorem scan_directory_for_savestates_close_fails:
  "compat_opendir unclosable_world ''/mnt/.fuse/savestates/Game''
     = Some \<lparr>readdir_results =
               [COMPAT_DIR_RESULT_OK ''.'', COMPAT_DIR_RESULT_OK ''..'',
                COMPAT_DIR_RESULT_OK ''00.szx''],
             closedir_result = - 1\<rparr>
   \<and> is_savestate_name unclosable_world example_state (Some ''00.szx'') = 1
   \<and> scan_directory_for_savestates unclosable_world (Some ''/mnt/.fuse/savestates/Game'')
        (is_savestate_name unclosable_world example_state) = 0"
proof -
  have opened: "compat_opendir unclosable_world ''/mnt/.fuse/savestates/Game''
     = Some \<lparr>readdir_results =
               [COMPAT_DIR_RESULT_OK ''.'', COMPAT_DIR_RESULT_OK ''..'',
                COMPAT_DIR_RESULT_OK ''00.szx''],
             closedir_result = - 1\<rparr>"
    by (simp add: unclosable_world_def)
  then have "scan_directory_for_savestates unclosable_world (Some ''/mnt/.fuse/savestates/Game'')
        (is_savestate_name unclosable_world example_state) = 0"
    by (simp add: scan_directory_for_savestates_def
          is_savestate_name_example [OF unclosable_world_last_filename])
  with opened show ?thesis
    by (simp add: is_savestate_name_example [OF unclosable_world_last_filename])
qed

section \<open>The existence cache\<close>

lemma check_dir_exist_example: "stat w d = STAT_OK \<Longrightarrow> check_dir_exist w (Some d) = 1"
  by (simp add: check_dir_exist_def)

lemma quicksave_get_current_program_unfold:
  "quicksave_get_current_program w =
     (if last_filename w = None then None
      else compat_chop_expressions w re_expressions (utils_last_filename w (last_filename w) 1))"
  by (simp add: quicksave_get_current_program_def split: option.splits)

lemma quicksave_get_current_dir_unfold:
  "quicksave_get_current_dir w s =
     (if last_filename w = None \<or> compat_get_config_path w = None then None
      else Some (snprintf (PATH_MAX w)
             (the (compat_get_config_path w) @ FUSE_DIR_SEP_STR w @ ''savestates''
               @ FUSE_DIR_SEP_STR w
               @ (if od_quicksave_per_machine (settings_current s) \<noteq> 0
                  then libspectrum_machine_name w (machine_current w) @ FUSE_DIR_SEP_STR w
                  else [])
               @ fmt_s (quicksave_get_current_program w))))"
  by (simp add: quicksave_get_current_dir_def Let_def split: option.splits)

lemma saved_dir:
  "quicksave_get_current_dir saved_world s = quicksave_get_current_dir example_world s"
  by (simp add: saved_world_def quicksave_get_current_dir_unfold
        quicksave_get_current_program_unfold)

lemma saved_scan:
  "scan_directory_for_savestates saved_world (Some ''/mnt/.fuse/savestates/Game'')
     (is_savestate_name saved_world example_state) = 1"
  by (simp add: scan_directory_for_savestates_def saved_world_def
        is_savestate_name_example [OF saved_world_last_filename [unfolded saved_world_def]])

lemma is_savestate_name_cache:
  "is_savestate_name w (s\<lparr>last_check_directory := a, last_check_directory_result := b\<rparr>)
     = is_savestate_name w s"
  by (rule ext) (simp add: is_savestate_name_def split: option.splits)

lemma dir_cache:
  "quicksave_get_current_dir w (s\<lparr>last_check_directory := a, last_check_directory_result := b\<rparr>)
     = quicksave_get_current_dir w s"
  by (simp add: quicksave_get_current_dir_unfold)

text \<open>
  What a call does when the resolved directory exists and is not the cached one: it
  resets the cache and returns 0, whatever the directory holds; the scan is in the other
  branch.
\<close>

lemma check_any_savestate_exist_reset:
  assumes "quicksave_get_current_dir w s = Some d"
      and "check_dir_exist w (Some d) \<noteq> 0"
      and "last_check_directory s = None \<or> strcmp d (the (last_check_directory s)) \<noteq> 0"
  shows "check_any_savestate_exist w s
           = (0, s\<lparr>last_check_directory := Some d, last_check_directory_result := 0\<rparr>)"
  using assms by (auto simp: check_any_savestate_exist_def)

text \<open>
  C1, at an input where the code departs from it. The save directory of the example exists and holds the save file
  \<open>00.szx\<close>, which the validator accepts, so that a scan gives 1. With no directory
  checked before, or with another directory checked last, \<open>check_any_savestate_exist\<close>
  sets the cached path to the new directory and the cached result to 0, and returns 0
  without a scan; only the next call scans and returns 1.
\<close>

theorem check_any_savestate_exist_new_directory:
  "quicksave_get_current_dir saved_world example_state = Some ''/mnt/.fuse/savestates/Game''
   \<and> check_dir_exist saved_world (Some ''/mnt/.fuse/savestates/Game'') = 1
   \<and> scan_directory_for_savestates saved_world (Some ''/mnt/.fuse/savestates/Game'')
        (is_savestate_name saved_world example_state) = 1
   \<and> last_check_directory example_state = None
   \<and> check_any_savestate_exist saved_world example_state
        = (0, example_state\<lparr>last_check_directory := Some ''/mnt/.fuse/savestates/Game'',
                            last_check_directory_result := 0\<rparr>)
   \<and> last_check_directory other_dir_state = Some ''/mnt/.fuse/savestates/Other''
   \<and> check_any_savestate_exist saved_world other_dir_state
        = (0, example_state\<lparr>last_check_directory := Some ''/mnt/.fuse/savestates/Game'',
                            last_check_directory_result := 0\<rparr>)
   \<and> check_any_savestate_exist saved_world
        (example_state\<lparr>last_check_directory := Some ''/mnt/.fuse/savestates/Game'',
                       last_check_directory_result := 0\<rparr>)
        = (1, example_state\<lparr>last_check_directory := Some ''/mnt/.fuse/savestates/Game'',
                            last_check_directory_result := 1\<rparr>)"
proof -
  have dir: "quicksave_get_current_dir saved_world example_state
               = Some ''/mnt/.fuse/savestates/Game''"
    by (simp add: saved_dir example_dir)
  have dir': "quicksave_get_current_dir saved_world other_dir_state
               = Some ''/mnt/.fuse/savestates/Game''"
    unfolding other_dir_state_def by (simp add: dir_cache dir)
  have exists: "check_dir_exist saved_world (Some ''/mnt/.fuse/savestates/Game'') = 1"
    by (rule check_dir_exist_example) (simp add: saved_world_def example_world_def)
  have first: "check_any_savestate_exist saved_world example_state
        = (0, example_state\<lparr>last_check_directory := Some ''/mnt/.fuse/savestates/Game'',
                            last_check_directory_result := 0\<rparr>)"
    by (simp add: check_any_savestate_exist_def dir exists) (simp add: example_state_def)
  have other: "check_any_savestate_exist saved_world other_dir_state
        = (0, example_state\<lparr>last_check_directory := Some ''/mnt/.fuse/savestates/Game'',
                            last_check_directory_result := 0\<rparr>)"
    by (simp add: check_any_savestate_exist_def dir' exists)
       (simp add: other_dir_state_def example_state_def)
  have second: "check_any_savestate_exist saved_world
        (example_state\<lparr>last_check_directory := Some ''/mnt/.fuse/savestates/Game'',
                       last_check_directory_result := 0\<rparr>)
        = (1, example_state\<lparr>last_check_directory := Some ''/mnt/.fuse/savestates/Game'',
                            last_check_directory_result := 1\<rparr>)"
    by (simp add: check_any_savestate_exist_def dir_cache dir exists strcmp_same
          is_savestate_name_cache saved_scan)
  show ?thesis
    using dir exists saved_scan first other second
    by (simp add: example_state_def other_dir_state_def)
qed


lemma quicksave_get_current_dir_opendir:
  "quicksave_get_current_dir (w\<lparr>compat_opendir := contents\<rparr>) s = quicksave_get_current_dir w s"
  by (simp add: quicksave_get_current_dir_unfold quicksave_get_current_program_unfold)

lemma check_dir_exist_opendir:
  "check_dir_exist (w\<lparr>compat_opendir := contents\<rparr>) dir = check_dir_exist w dir"
  by (simp add: check_dir_exist_def split: option.splits)

lemma quicksave_get_current_dir_stat:
  "quicksave_get_current_dir (w\<lparr>stat := f\<rparr>) s = quicksave_get_current_dir w s"
  by (simp add: quicksave_get_current_dir_unfold quicksave_get_current_program_unfold)

text \<open>
  C6, as the code has it. For every call of \<open>check_any_savestate_exist\<close> in a state where
  the save directory resolves, \<open>stat\<close> does not report it missing, it equals the cached
  last-checked directory and the cached result is true, the call returns the cached
  result and leaves the state as it is, whatever opening and reading the directory
  would give.
\<close>

theorem check_any_savestate_exist_sticky:
  assumes "quicksave_get_current_dir w s = Some d"
      and "check_dir_exist w (Some d) \<noteq> 0"
      and "last_check_directory s = Some d"
      and "last_check_directory_result s \<noteq> 0"
  shows "check_any_savestate_exist (w\<lparr>compat_opendir := contents\<rparr>) s
           = (last_check_directory_result s, s)"
  using assms
  by (simp add: check_any_savestate_exist_def quicksave_get_current_dir_opendir
        check_dir_exist_opendir strcmp_same)

lemma cached_dir:
  "quicksave_get_current_dir w cached_state = quicksave_get_current_dir w example_state"
  unfolding cached_state_def by (rule dir_cache)

text \<open>
  The directory of the example was found to hold a save file; it can no longer be opened,
  and the answer is still 1.
\<close>

theorem check_any_savestate_exist_sticky_witness:
  "quicksave_get_current_dir example_world cached_state = Some ''/mnt/.fuse/savestates/Game''
   \<and> check_dir_exist example_world (Some ''/mnt/.fuse/savestates/Game'') \<noteq> 0
   \<and> last_check_directory cached_state = Some ''/mnt/.fuse/savestates/Game''
   \<and> last_check_directory_result cached_state \<noteq> 0
   \<and> check_any_savestate_exist (example_world\<lparr>compat_opendir := (\<lambda>path. None)\<rparr>) cached_state
        = (1, cached_state)"
proof -
  have dir: "quicksave_get_current_dir example_world cached_state
               = Some ''/mnt/.fuse/savestates/Game''"
    by (simp add: cached_dir example_dir)
  have exists: "check_dir_exist example_world (Some ''/mnt/.fuse/savestates/Game'') \<noteq> 0"
    by (simp add: check_dir_exist_def example_world_def)
  have cached: "last_check_directory cached_state = Some ''/mnt/.fuse/savestates/Game''"
    by (simp add: cached_state_def)
  have result: "last_check_directory_result cached_state \<noteq> 0"
    by (simp add: cached_state_def)
  have "check_any_savestate_exist (example_world\<lparr>compat_opendir := (\<lambda>path. None)\<rparr>) cached_state
        = (1, cached_state)"
    using check_any_savestate_exist_sticky [OF dir exists cached result, of "\<lambda>path. None"]
    by (simp add: cached_state_def)
  with dir exists cached result show ?thesis by blast
qed

text \<open>
  C6 as stated fails where the directory is gone: the resolved directory equals the
  cached one and the cached result is 1, but \<open>stat\<close> reports the directory missing and
  the query returns 0.
\<close>

theorem check_any_savestate_exist_directory_deleted:
  "quicksave_get_current_dir deleted_world cached_state = Some ''/mnt/.fuse/savestates/Game''
   \<and> last_check_directory cached_state = Some ''/mnt/.fuse/savestates/Game''
   \<and> last_check_directory_result cached_state = 1
   \<and> check_any_savestate_exist deleted_world cached_state = (0, cached_state)"
proof -
  have "quicksave_get_current_dir deleted_world cached_state
          = quicksave_get_current_dir example_world example_state"
    by (simp add: deleted_world_def quicksave_get_current_dir_stat cached_dir)
  then have dir: "quicksave_get_current_dir deleted_world cached_state
               = Some ''/mnt/.fuse/savestates/Game''"
    by (simp add: example_dir)
  have gone: "check_dir_exist deleted_world (Some ''/mnt/.fuse/savestates/Game'') = 0"
    by (simp add: check_dir_exist_def deleted_world_def)
  have "check_any_savestate_exist deleted_world cached_state = (0, cached_state)"
    by (simp add: check_any_savestate_exist_def dir gone)
  with dir show ?thesis by (simp add: cached_state_def)
qed

section \<open>Loading a slot\<close>

lemma check_current_savestate_exist_0:
  "(check_current_savestate_exist w s slot = 0) =
     (\<forall>filename. quicksave_get_filename w s slot = Some filename
        \<longrightarrow> compat_file_exists w filename = 0)"
  by (simp add: check_current_savestate_exist_def split: option.splits)

text \<open>
  C3, as the code has it. When the save file of a slot does not exist on disk (its path
  does not resolve, or \<open>compat_file_exists\<close> denies it), no load invokes
  \<open>utils_open_file\<close> or makes any other call, and the state stays as it is; the load of
  the default slot, \<open>quicksave_load\<close>, returns 0, a success, and the internal load that
  \<open>savestate_read\<close> delegates to, \<open>savestate_read_internal\<close>, returns 1, an error.
\<close>

theorem load_missing_file:
  assumes "\<forall>filename.
             quicksave_get_filename w s slot = Some filename
               \<longrightarrow> compat_file_exists w filename = 0"
  shows "(slot = od_quicksave_slot (settings_current s) \<longrightarrow> quicksave_load w s = (0, s))
         \<and> savestate_read_internal w s slot = (1, s)"
  using assms
  by (simp add: quicksave_load_def savestate_read_internal_def check_current_savestate_exist_0)

text \<open>Slot 0 of the example has the path \<open>/mnt/.fuse/savestates/Game/00.szx\<close> and no file.\<close>

theorem load_missing_file_witness:
  "quicksave_get_filename example_world example_state 0
     = Some ''/mnt/.fuse/savestates/Game/00.szx''
   \<and> compat_file_exists example_world ''/mnt/.fuse/savestates/Game/00.szx'' = 0
   \<and> od_quicksave_slot (settings_current example_state) = 0
   \<and> quicksave_load example_world example_state = (0, example_state)
   \<and> calls (snd (quicksave_load example_world example_state)) = []"
proof -
  have slot: "0 = od_quicksave_slot (settings_current example_state)"
    by (simp add: example_state_def)
  have missing: "compat_file_exists example_world ''/mnt/.fuse/savestates/Game/00.szx'' = 0"
    by (simp add: example_world_def)
  have "\<forall>filename.
          quicksave_get_filename example_world example_state 0 = Some filename
            \<longrightarrow> compat_file_exists example_world filename = 0"
    using example_filename_0 missing by simp
  then have "quicksave_load example_world example_state = (0, example_state)"
    using load_missing_file [of example_world example_state 0] slot by blast
  with example_filename_0 missing slot show ?thesis by (simp add: example_state_def)
qed

lemma last_filename_00:
  "example_last_filename (Some ''/mnt/.fuse/savestates/Game/00.szx'') 1 = Some ''00''"
  by (simp add: example_last_filename_def last_component_def strip_extension_def)

lemma atoi_00: "atoi w ''00'' = 0"
  by (simp add: atoi_def atoi_value_def atoi_digits_def isspace_def isdigit_def digit_val_def)

text \<open>
  C3 as stated fails for the load by path: slot 0 of the example has no file, and
  \<open>savestate_read_internal\<close>, hence \<open>savestate_read\<close> with the path of that slot, returns
  1, which is an error to its callers, not a success.
\<close>

theorem savestate_read_missing_file:
  "quicksave_get_filename example_world example_state 0
     = Some ''/mnt/.fuse/savestates/Game/00.szx''
   \<and> compat_file_exists example_world ''/mnt/.fuse/savestates/Game/00.szx'' = 0
   \<and> savestate_read_internal example_world example_state 0 = (1, example_state)
   \<and> savestate_read example_world example_state (Some ''/mnt/.fuse/savestates/Game/00.szx'')
        = (1, example_state)"
proof -
  have missing: "compat_file_exists example_world ''/mnt/.fuse/savestates/Game/00.szx'' = 0"
    by (simp add: example_world_def)
  have internal: "savestate_read_internal example_world example_state 0 = (1, example_state)"
    by (simp add: savestate_read_internal_def check_current_savestate_exist_def
          example_filename_0 missing)
  have base: "utils_last_filename example_world (Some ''/mnt/.fuse/savestates/Game/00.szx'') 1
                = Some ''00''"
    by (simp add: example_world_def last_filename_00)
  have same: "set_od_quicksave_slot 0 example_state = example_state"
    by (simp add: set_od_quicksave_slot_def example_state_def)
  have slot: "od_quicksave_slot (settings_current example_state) = 0"
    by (simp add: example_state_def)
  have "savestate_read example_world example_state (Some ''/mnt/.fuse/savestates/Game/00.szx'')
        = (1, example_state)"
    by (simp add: savestate_read_def base atoi_00 same slot internal Let_def)
  with example_filename_0 missing internal show ?thesis by simp
qed

lemma quicksave_get_filename_unfold:
  "quicksave_get_filename w s slot =
     map_option (\<lambda>d. snprintf (PATH_MAX w)
                    (d @ FUSE_DIR_SEP_STR w @ fmt_02d slot
                      @ od_quicksave_format (settings_current s)))
       (quicksave_get_current_dir w s)"
  by (simp add: quicksave_get_filename_def split: option.splits)

lemma settings_current_do_call: "settings_current (do_call c s) = settings_current s"
  by (simp add: do_call_def)

lemma quicksave_get_current_dir_do_call:
  "quicksave_get_current_dir w (do_call c s) = quicksave_get_current_dir w s"
  by (simp add: quicksave_get_current_dir_unfold do_call_def)

lemma quicksave_get_filename_do_call:
  "quicksave_get_filename w (do_call c s) slot = quicksave_get_filename w s slot"
  by (simp add: quicksave_get_filename_unfold quicksave_get_current_dir_do_call)
     (simp add: do_call_def)

lemma saved_filename:
  "quicksave_get_filename saved_world s slot = quicksave_get_filename example_world s slot"
  by (simp add: quicksave_get_filename_unfold saved_dir) (simp add: saved_world_def)

lemma saved_filename_0:
  "quicksave_get_filename saved_world example_state 0 = Some ''/mnt/.fuse/savestates/Game/00.szx''"
  by (simp add: saved_filename example_filename_0)

text \<open>For comparison: with the save file on disk the load opens it, between pause and unpause.\<close>

lemma quicksave_load_existing_file:
  "quicksave_load saved_world example_state =
     (0, example_state\<lparr>calls :=
           [Call_fuse_emulation_pause,
            Call_utils_open_file ''/mnt/.fuse/savestates/Game/00.szx'' 9,
            Call_ui_widget_show_msg_update_info ''Loaded slot 00'',
            Call_display_refresh_all,
            Call_fuse_emulation_unpause]\<rparr>)"
proof -
  have slot: "od_quicksave_slot (settings_current example_state) = 0"
    by (simp add: example_state_def)
  have fn: "\<And>c. quicksave_get_filename saved_world (do_call c example_state) 0
              = Some ''/mnt/.fuse/savestates/Game/00.szx''"
    by (simp add: quicksave_get_filename_do_call saved_filename_0)
  have ex: "compat_file_exists saved_world ''/mnt/.fuse/savestates/Game/00.szx'' = 1"
    by (simp add: saved_world_def)
  have op: "utils_open_file saved_world ''/mnt/.fuse/savestates/Game/00.szx'' 9 = 0"
    by (simp add: saved_world_def example_world_def)
  show ?thesis
    by (simp add: quicksave_load_def check_current_savestate_exist_def slot saved_filename_0 ex
          savestate_read_internal_def fn op Let_def fmt_02d_0 settings_current_do_call)
       (simp add: example_state_def do_call_def)
qed

section \<open>The screen of a slot\<close>

lemma and_8_bit_3: "(x AND 0x08 \<noteq> 0) = bit x 3" for x :: byte
proof -
  have "(8 :: byte) = push_bit 3 1" by simp
  then show ?thesis
    by (simp only: bit_iff_and_push_bit_not_eq_0)
qed

lemma screen_page_eq:
  "screen_page snap =
     (if libspectrum_snap_machine snap \<in>
           {LIBSPECTRUM_MACHINE_PENT, LIBSPECTRUM_MACHINE_PENT512, LIBSPECTRUM_MACHINE_PENT1024,
            LIBSPECTRUM_MACHINE_SCORP, LIBSPECTRUM_MACHINE_PLUS2, LIBSPECTRUM_MACHINE_PLUS2A,
            LIBSPECTRUM_MACHINE_PLUS3, LIBSPECTRUM_MACHINE_PLUS3E, LIBSPECTRUM_MACHINE_128,
            LIBSPECTRUM_MACHINE_128E, LIBSPECTRUM_MACHINE_SE}
      then (if bit (libspectrum_snap_out_128_memoryport snap) 3 then 7 else 5)
      else 5)"
  unfolding screen_page_def and_8_bit_3
  by (cases "libspectrum_snap_machine snap") simp_all

lemma memcpy_take: "length dst = n \<Longrightarrow> n \<le> length src \<Longrightarrow> memcpy dst src n = take n src"
  by (simp add: memcpy_def)

text \<open>
  C4. When the snapshot of the slot is read and parsed (\<open>savetate_read_snapshot\<close> returns
  0), the page selected is 7 if the machine is one of Pentagon, Pentagon 512, Pentagon
  1024, Scorpion, +2, +2A, +3, +3E, 128, 128E and SE and bit 3 of the paging register is
  set, and 5 otherwise; the buffer returned holds the first 6912 bytes of that page (the
  page holding at least as many), and nothing else.
\<close>

theorem savestate_get_screen_for_slot_page:
  assumes "savetate_read_snapshot w (quicksave_get_filename w s slot) (libspectrum_snap_alloc w)
             = (0, snap)"
      and "page =
             (if libspectrum_snap_machine snap \<in>
                  {LIBSPECTRUM_MACHINE_PENT, LIBSPECTRUM_MACHINE_PENT512,
                   LIBSPECTRUM_MACHINE_PENT1024, LIBSPECTRUM_MACHINE_SCORP,
                   LIBSPECTRUM_MACHINE_PLUS2, LIBSPECTRUM_MACHINE_PLUS2A,
                   LIBSPECTRUM_MACHINE_PLUS3, LIBSPECTRUM_MACHINE_PLUS3E,
                   LIBSPECTRUM_MACHINE_128, LIBSPECTRUM_MACHINE_128E, LIBSPECTRUM_MACHINE_SE}
              then (if bit (libspectrum_snap_out_128_memoryport snap) 3 then 7 else 5)
              else 5)"
      and "6912 \<le> length (libspectrum_snap_pages snap page)"
  shows "savestate_get_screen_for_slot w s slot =
           (libspectrum_snap_free w snap,
            \<lparr>buffer = take 6912 (libspectrum_snap_pages snap page), length' = 6912\<rparr>)"
proof -
  have page: "screen_page snap = page"
    using assms(2) by (simp only: screen_page_eq)
  show ?thesis
    using assms(1,3)
    by (simp add: savestate_get_screen_for_slot_def Let_def page memcpy_take)
qed


lemma screen_filename_0:
  "quicksave_get_filename screen_world example_state 0 = Some ''/mnt/.fuse/savestates/Game/00.szx''"
proof -
  have "quicksave_get_current_dir screen_world example_state
          = quicksave_get_current_dir saved_world example_state"
    by (simp add: screen_world_def quicksave_get_current_dir_unfold
          quicksave_get_current_program_unfold)
  then have "quicksave_get_filename screen_world example_state 0
          = quicksave_get_filename saved_world example_state 0"
    by (simp add: quicksave_get_filename_unfold) (simp add: screen_world_def)
  then show ?thesis by (simp add: saved_filename_0)
qed

lemma screen_read:
  "savetate_read_snapshot screen_world (Some ''/mnt/.fuse/savestates/Game/00.szx'')
     (libspectrum_snap_alloc screen_world) = (0, snap_128)"
  by (simp add: savetate_read_snapshot_def screen_world_def saved_world_def)

text \<open>
  Slot 0 holds a snapshot of a 128K machine with bit 3 of the paging register set: the
  screen is the start of page 7.
\<close>

theorem savestate_get_screen_for_slot_page_witness:
  "savetate_read_snapshot screen_world (quicksave_get_filename screen_world example_state 0)
       (libspectrum_snap_alloc screen_world) = (0, snap_128)
   \<and> libspectrum_snap_machine snap_128 = LIBSPECTRUM_MACHINE_128
   \<and> bit (libspectrum_snap_out_128_memoryport snap_128) 3
   \<and> 6912 \<le> length (libspectrum_snap_pages snap_128 7)
   \<and> savestate_get_screen_for_slot screen_world example_state 0
        = (0, \<lparr>buffer = replicate 6912 0xFF, length' = 6912\<rparr>)"
proof -
  have read: "savetate_read_snapshot screen_world
       (quicksave_get_filename screen_world example_state 0)
       (libspectrum_snap_alloc screen_world) = (0, snap_128)"
    by (simp add: screen_filename_0 screen_read)
  have machine: "libspectrum_snap_machine snap_128 = LIBSPECTRUM_MACHINE_128"
    by (simp add: snap_128_def)
  have port: "bit (libspectrum_snap_out_128_memoryport snap_128) 3"
    by (simp add: snap_128_def)
  have page: "(7 :: int) =
             (if libspectrum_snap_machine snap_128 \<in>
                  {LIBSPECTRUM_MACHINE_PENT, LIBSPECTRUM_MACHINE_PENT512,
                   LIBSPECTRUM_MACHINE_PENT1024, LIBSPECTRUM_MACHINE_SCORP,
                   LIBSPECTRUM_MACHINE_PLUS2, LIBSPECTRUM_MACHINE_PLUS2A,
                   LIBSPECTRUM_MACHINE_PLUS3, LIBSPECTRUM_MACHINE_PLUS3E,
                   LIBSPECTRUM_MACHINE_128, LIBSPECTRUM_MACHINE_128E, LIBSPECTRUM_MACHINE_SE}
              then (if bit (libspectrum_snap_out_128_memoryport snap_128) 3 then 7 else 5)
              else 5)"
    using machine port by simp
  have long: "6912 \<le> length (libspectrum_snap_pages snap_128 7)"
    by (simp add: snap_128_def)
  have "savestate_get_screen_for_slot screen_world example_state 0
        = (0, \<lparr>buffer = replicate 6912 0xFF, length' = 6912\<rparr>)"
    using savestate_get_screen_for_slot_page [OF read page long]
    by (simp add: snap_128_def screen_world_def saved_world_def example_world_def)
  with read machine port long show ?thesis by simp
qed

text \<open>
  C5. \<open>savestate_get_screen_for_slot\<close> always sets a length of 6912 and a buffer of 6912
  bytes (where a snapshot is read, its screen page holding the 6912 bytes that are
  copied), and whenever the path of the save file does not resolve, the file does not
  exist, or reading or parsing it fails, the buffer holds 6912 zero bytes.
\<close>

theorem savestate_get_screen_for_slot_buffer:
  assumes "\<And>snap.
             savetate_read_snapshot w (quicksave_get_filename w s slot) (libspectrum_snap_alloc w)
               = (0, snap)
             \<Longrightarrow> 6912 \<le> length (libspectrum_snap_pages snap (screen_page snap))"
  shows "length' (snd (savestate_get_screen_for_slot w s slot)) = 6912
         \<and> length (buffer (snd (savestate_get_screen_for_slot w s slot))) = 6912
         \<and> (quicksave_get_filename w s slot = None
              \<or> (\<exists>path. quicksave_get_filename w s slot = Some path
                    \<and> (compat_file_exists w path = 0
                        \<or> fst (utils_read_file w path) \<noteq> 0
                        \<or> fst (libspectrum_snap_read w (libspectrum_snap_alloc w)
                                 (buffer (snd (utils_read_file w path)))
                                 (length' (snd (utils_read_file w path))) path) \<noteq> 0))
            \<longrightarrow> buffer (snd (savestate_get_screen_for_slot w s slot)) = replicate 6912 0)"
proof (cases "fst (savetate_read_snapshot w (quicksave_get_filename w s slot)
                    (libspectrum_snap_alloc w)) = 0")
  case True
  then obtain snap where read:
    "savetate_read_snapshot w (quicksave_get_filename w s slot) (libspectrum_snap_alloc w)
       = (0, snap)"
    by (cases "savetate_read_snapshot w (quicksave_get_filename w s slot)
                 (libspectrum_snap_alloc w)") simp
  from assms [OF read] have long: "6912 \<le> length (libspectrum_snap_pages snap (screen_page snap))" .
  have ok: "quicksave_get_filename w s slot \<noteq> None
        \<and> (\<forall>path. quicksave_get_filename w s slot = Some path \<longrightarrow>
              compat_file_exists w path \<noteq> 0
              \<and> fst (utils_read_file w path) = 0
              \<and> fst (libspectrum_snap_read w (libspectrum_snap_alloc w)
                       (buffer (snd (utils_read_file w path)))
                       (length' (snd (utils_read_file w path))) path) = 0)"
    using read
    by (auto simp: savetate_read_snapshot_def split: option.splits if_splits prod.splits)
  show ?thesis
    using read long ok
    by (auto simp: savestate_get_screen_for_slot_def Let_def memcpy_take)
next
  case False
  then show ?thesis
    by (auto simp: savestate_get_screen_for_slot_def Let_def split: prod.splits)
qed


text \<open>
  Slot 0 of the first example has no file: the buffer is black. Slot 0 of the example
  with a snapshot: its page 7 holds the bytes copied, and the buffer has 6912 bytes.
\<close>

theorem savestate_get_screen_for_slot_buffer_witness:
  "quicksave_get_filename example_world example_state 0
     = Some ''/mnt/.fuse/savestates/Game/00.szx''
   \<and> compat_file_exists example_world ''/mnt/.fuse/savestates/Game/00.szx'' = 0
   \<and> length' (snd (savestate_get_screen_for_slot example_world example_state 0)) = 6912
   \<and> buffer (snd (savestate_get_screen_for_slot example_world example_state 0))
        = replicate 6912 0
   \<and> savetate_read_snapshot screen_world (quicksave_get_filename screen_world example_state 0)
        (libspectrum_snap_alloc screen_world) = (0, snap_128)
   \<and> 6912 \<le> length (libspectrum_snap_pages snap_128 (screen_page snap_128))
   \<and> length' (snd (savestate_get_screen_for_slot screen_world example_state 0)) = 6912
   \<and> length (buffer (snd (savestate_get_screen_for_slot screen_world example_state 0))) = 6912"
proof -
  have missing: "compat_file_exists example_world ''/mnt/.fuse/savestates/Game/00.szx'' = 0"
    by (simp add: example_world_def)
  have unread: "\<And>snap. savetate_read_snapshot example_world
                   (quicksave_get_filename example_world example_state 0)
                   (libspectrum_snap_alloc example_world) \<noteq> (0, snap)"
    by (simp add: example_filename_0 savetate_read_snapshot_def missing)
  have black:
    "length' (snd (savestate_get_screen_for_slot example_world example_state 0)) = 6912
     \<and> buffer (snd (savestate_get_screen_for_slot example_world example_state 0))
          = replicate 6912 0"
    using savestate_get_screen_for_slot_buffer [of example_world example_state 0]
      unread example_filename_0 missing
    by simp
  have read: "savetate_read_snapshot screen_world
       (quicksave_get_filename screen_world example_state 0)
       (libspectrum_snap_alloc screen_world) = (0, snap_128)"
    by (simp add: screen_filename_0 screen_read)
  have long: "6912 \<le> length (libspectrum_snap_pages snap_128 (screen_page snap_128))"
    by (simp add: snap_128_def)
  have "\<And>snap. savetate_read_snapshot screen_world
                   (quicksave_get_filename screen_world example_state 0)
                   (libspectrum_snap_alloc screen_world) = (0, snap)
          \<Longrightarrow> 6912 \<le> length (libspectrum_snap_pages snap (screen_page snap))"
    using read long by simp
  then have copied:
    "length' (snd (savestate_get_screen_for_slot screen_world example_state 0)) = 6912
     \<and> length (buffer (snd (savestate_get_screen_for_slot screen_world example_state 0))) = 6912"
    using savestate_get_screen_for_slot_buffer [of screen_world example_state 0]
    by blast
  from example_filename_0 missing black read long copied show ?thesis
    by blast
qed

section \<open>Reading and writing by path\<close>

lemma settings_current_savestate_read_internal:
  "settings_current (snd (savestate_read_internal w s slot)) = settings_current s"
  by (simp add: savestate_read_internal_def Let_def settings_current_do_call split: option.splits)

lemma settings_current_quicksave_create_dir:
  "settings_current (snd (quicksave_create_dir w s)) = settings_current s"
  by (simp add: quicksave_create_dir_def Let_def settings_current_do_call split: option.splits)

lemma settings_current_savestate_write_internal:
  "settings_current (snd (savestate_write_internal w s slot)) = settings_current s"
proof (cases "quicksave_create_dir w s")
  case (Pair r s1)
  then have "settings_current s1 = settings_current s"
    using settings_current_quicksave_create_dir [of w s] by simp
  with Pair show ?thesis
    by (simp add: savestate_write_internal_def Let_def settings_current_do_call
          split: option.splits)
qed

lemma od_quicksave_slot_set: "od_quicksave_slot (settings_current (set_od_quicksave_slot n s)) = n"
  by (simp add: set_od_quicksave_slot_def)

lemma atoi_value_no_number:
  assumes "base = [] \<or> (\<not> isdigit (hd base) \<and> \<not> isspace (hd base)
             \<and> hd base \<noteq> CHR ''-'' \<and> hd base \<noteq> CHR ''+'')"
  shows "atoi_value base = 0"
proof (cases base)
  case Nil
  then show ?thesis by (simp add: atoi_value_def)
next
  case (Cons c r)
  with assms show ?thesis by (simp add: atoi_value_def atoi_digits_def)
qed

lemma atoi_no_number:
  assumes "base = [] \<or> (\<not> isdigit (hd base) \<and> \<not> isspace (hd base)
             \<and> hd base \<noteq> CHR ''-'' \<and> hd base \<noteq> CHR ''+'')"
  shows "atoi w base = 0"
  using atoi_value_no_number [OF assms] by (simp add: atoi_def)

lemma atoi_in_range: "atoi_value s \<ge> - 2147483648 \<Longrightarrow> atoi_value s \<le> 2147483647 \<Longrightarrow>
  atoi w s = atoi_value s"
  by (simp add: atoi_def)

lemma atoi_is_int: "- 2147483648 \<le> atoi w s \<and> atoi w s \<le> 2147483647"
proof (cases "- 2147483648 \<le> atoi_value s \<and> atoi_value s \<le> 2147483647")
  case True
  then show ?thesis by (simp add: atoi_def)
next
  case False
  have "- (2 ^ (LENGTH(32) - 1)) \<le> sint (atoi_overflow w s)"
    by (rule sint_ge)
  moreover have "sint (atoi_overflow w s) < 2 ^ (LENGTH(32) - 1)"
    by (rule sint_lt)
  ultimately show ?thesis using False by (simp add: atoi_def)
qed

text \<open>
  C10, as the code has it. For every argument of which \<open>utils_last_filename\<close> gives the
  base name, \<open>savestate_read\<close> and \<open>savestate_write\<close> set \<open>od_quicksave_slot\<close> to \<open>atoi\<close> of
  the base name and then delegate, with that slot, to the internal load or save; the
  setting keeps that value whatever the delegated operation returns. The value is an
  \<open>int\<close> of 32 bits: the number the base name starts with where that is in the range of
  \<open>int\<close>, and 0 for a base name that is empty or starts with a character that is neither
  a digit, nor white space, nor a sign.
\<close>

theorem savestate_read_write_slot:
  assumes "utils_last_filename w savestate 1 = Some base"
  shows "savestate_read w s savestate
           = savestate_read_internal w (set_od_quicksave_slot (atoi w base) s) (atoi w base)
         \<and> savestate_write w s savestate
           = savestate_write_internal w (set_od_quicksave_slot (atoi w base) s) (atoi w base)
         \<and> od_quicksave_slot (settings_current (snd (savestate_read w s savestate)))
           = atoi w base
         \<and> od_quicksave_slot (settings_current (snd (savestate_write w s savestate)))
           = atoi w base
         \<and> - 2147483648 \<le> atoi w base \<and> atoi w base \<le> 2147483647
         \<and> (- 2147483648 \<le> atoi_value base \<and> atoi_value base \<le> 2147483647
             \<longrightarrow> atoi w base = atoi_value base)
         \<and> (base = [] \<or> (\<not> isdigit (hd base) \<and> \<not> isspace (hd base)
               \<and> hd base \<noteq> CHR ''-'' \<and> hd base \<noteq> CHR ''+'')
             \<longrightarrow> atoi w base = 0)"
  using assms atoi_is_int [of w base]
  by (simp add: savestate_read_def savestate_write_def Let_def od_quicksave_slot_set
        settings_current_savestate_read_internal settings_current_savestate_write_internal
        atoi_no_number atoi_in_range)

lemma last_filename_07:
  "example_last_filename (Some ''/mnt/.fuse/savestates/Game/07.szx'') 1 = Some ''07''"
  by (simp add: example_last_filename_def last_component_def strip_extension_def)

lemma last_filename_minus_5:
  "example_last_filename (Some ''/mnt/.fuse/savestates/Game/-5.szx'') 1 = Some ''-5''"
  by (simp add: example_last_filename_def last_component_def strip_extension_def)

lemma last_filename_large:
  "example_last_filename (Some ''/x/4294967303.szx'') 1 = Some ''4294967303''"
  by (simp add: example_last_filename_def last_component_def strip_extension_def)

lemma atoi_value_07: "atoi_value ''07'' = 7"
  by (simp add: atoi_value_def atoi_digits_def isspace_def isdigit_def digit_val_def)

lemma atoi_07: "atoi w ''07'' = 7"
  by (simp add: atoi_def atoi_value_07)

lemma atoi_minus_5: "atoi w ''-5'' = - 5"
  by (simp add: atoi_def atoi_value_def atoi_digits_def isspace_def isdigit_def digit_val_def)

lemma atoi_value_large: "atoi_value ''4294967303'' = 4294967303"
  by (simp add: atoi_value_def atoi_digits_def isspace_def isdigit_def digit_val_def)

lemma atoi_large: "atoi example_world ''4294967303'' = 7"
  by (simp add: atoi_def atoi_value_large example_world_def glibc_atoi_overflow_def)

lemma quicksave_get_current_dir_set_slot:
  "quicksave_get_current_dir w (set_od_quicksave_slot n s) = quicksave_get_current_dir w s"
  by (simp add: quicksave_get_current_dir_unfold set_od_quicksave_slot_def)

lemma write_fails_dir:
  "quicksave_get_current_dir write_fails_world (set_od_quicksave_slot n example_state)
     = Some ''/mnt/.fuse/savestates/Game''"
proof -
  have "quicksave_get_current_dir write_fails_world example_state
          = quicksave_get_current_dir example_world example_state"
    by (simp add: write_fails_world_def quicksave_get_current_dir_unfold
          quicksave_get_current_program_unfold)
  then show ?thesis
    by (simp add: quicksave_get_current_dir_set_slot example_dir)
qed

lemma read_fails:
  "fst (savestate_read_internal example_world (set_od_quicksave_slot 7 example_state) 7) = 1"
  by (simp add: savestate_read_internal_def check_current_savestate_exist_def
        split: option.splits)
     (simp add: example_world_def)

lemma write_fails:
  "fst (savestate_write_internal write_fails_world (set_od_quicksave_slot 7 example_state) 7) = 1"
proof -
  have stat: "check_dir_exist write_fails_world (Some ''/mnt/.fuse/savestates/Game'') = 1"
    by (simp add: check_dir_exist_def write_fails_world_def example_world_def)
  have sw: "\<And>path. snapshot_write write_fails_world path = 1"
    by (simp add: write_fails_world_def)
  show ?thesis
    by (simp add: savestate_write_internal_def quicksave_get_filename_unfold write_fails_dir
          quicksave_create_dir_def stat sw Let_def)
qed

text \<open>
  The path \<open>/mnt/.fuse/savestates/Game/07.szx\<close> selects slot 7: the load of the missing
  file fails, the save fails where the snapshot cannot be written, and the default slot
  is 7 afterwards in both cases; it was 0 before. The number of \<open>/x/4294967303.szx\<close> is
  beyond the range of \<open>int\<close>: with glibc the slot is 7 again.
\<close>

theorem savestate_read_write_slot_witness:
  "utils_last_filename example_world (Some ''/mnt/.fuse/savestates/Game/07.szx'') 1 = Some ''07''
   \<and> utils_last_filename write_fails_world (Some ''/mnt/.fuse/savestates/Game/07.szx'') 1
        = Some ''07''
   \<and> atoi_value ''07'' = 7
   \<and> od_quicksave_slot (settings_current example_state) = 0
   \<and> fst (savestate_read example_world example_state
            (Some ''/mnt/.fuse/savestates/Game/07.szx'')) = 1
   \<and> od_quicksave_slot (settings_current (snd (savestate_read example_world example_state
            (Some ''/mnt/.fuse/savestates/Game/07.szx'')))) = 7
   \<and> fst (savestate_write write_fails_world example_state
            (Some ''/mnt/.fuse/savestates/Game/07.szx'')) = 1
   \<and> od_quicksave_slot (settings_current (snd (savestate_write write_fails_world example_state
            (Some ''/mnt/.fuse/savestates/Game/07.szx'')))) = 7
   \<and> utils_last_filename example_world (Some ''/x/4294967303.szx'') 1 = Some ''4294967303''
   \<and> atoi_value ''4294967303'' = 4294967303
   \<and> od_quicksave_slot (settings_current (snd (savestate_read example_world example_state
            (Some ''/x/4294967303.szx'')))) = 7"
proof -
  have b1: "utils_last_filename example_world (Some ''/mnt/.fuse/savestates/Game/07.szx'') 1
              = Some ''07''"
    by (simp add: example_world_def last_filename_07)
  have b2: "utils_last_filename write_fails_world (Some ''/mnt/.fuse/savestates/Game/07.szx'') 1
              = Some ''07''"
    by (simp add: write_fails_world_def example_world_def last_filename_07)
  have b3: "utils_last_filename example_world (Some ''/x/4294967303.szx'') 1
              = Some ''4294967303''"
    by (simp add: example_world_def last_filename_large)
  have before: "od_quicksave_slot (settings_current example_state) = 0"
    by (simp add: example_state_def)
  note r = savestate_read_write_slot [OF b1, of example_state]
  note w = savestate_read_write_slot [OF b2, of example_state]
  note l = savestate_read_write_slot [OF b3, of example_state]
  have "fst (savestate_read example_world example_state
            (Some ''/mnt/.fuse/savestates/Game/07.szx'')) = 1"
    using r [THEN conjunct1] by (simp add: atoi_07 read_fails)
  moreover have "od_quicksave_slot (settings_current (snd (savestate_read example_world
            example_state (Some ''/mnt/.fuse/savestates/Game/07.szx'')))) = 7"
    using r [THEN conjunct2, THEN conjunct2, THEN conjunct1] by (simp only: atoi_07)
  moreover have "fst (savestate_write write_fails_world example_state
            (Some ''/mnt/.fuse/savestates/Game/07.szx'')) = 1"
    using w [THEN conjunct2, THEN conjunct1] by (simp add: atoi_07 write_fails)
  moreover have "od_quicksave_slot (settings_current (snd (savestate_write write_fails_world
            example_state (Some ''/mnt/.fuse/savestates/Game/07.szx'')))) = 7"
    using w [THEN conjunct2, THEN conjunct2, THEN conjunct2, THEN conjunct1]
    by (simp only: atoi_07)
  moreover have "od_quicksave_slot (settings_current (snd (savestate_read example_world
            example_state (Some ''/x/4294967303.szx'')))) = 7"
    using l [THEN conjunct2, THEN conjunct2, THEN conjunct1] by (simp only: atoi_large)
  ultimately show ?thesis using b1 b2 b3 before atoi_value_07 atoi_value_large by simp
qed

text \<open>
  C10 as stated fails for a base name that starts with a sign: \<open>-5\<close> has no leading
  digit, and \<open>atoi\<close> reads it as \<open>-5\<close>, which becomes the default slot.
\<close>

theorem savestate_read_signed_name:
  "utils_last_filename example_world (Some ''/mnt/.fuse/savestates/Game/-5.szx'') 1 = Some ''-5''
   \<and> \<not> isdigit (hd ''-5'')
   \<and> od_quicksave_slot (settings_current (snd (savestate_read example_world example_state
            (Some ''/mnt/.fuse/savestates/Game/-5.szx'')))) = - 5
   \<and> od_quicksave_slot (settings_current (snd (savestate_write example_world example_state
            (Some ''/mnt/.fuse/savestates/Game/-5.szx'')))) = - 5"
proof -
  have b: "utils_last_filename example_world (Some ''/mnt/.fuse/savestates/Game/-5.szx'') 1
             = Some ''-5''"
    by (simp add: example_world_def last_filename_minus_5)
  have "od_quicksave_slot (settings_current (snd (savestate_read example_world example_state
            (Some ''/mnt/.fuse/savestates/Game/-5.szx'')))) = - 5"
    by (simp add: savestate_read_def b Let_def settings_current_savestate_read_internal
          od_quicksave_slot_set atoi_minus_5)
  moreover have "od_quicksave_slot (settings_current (snd (savestate_write example_world
            example_state (Some ''/mnt/.fuse/savestates/Game/-5.szx'')))) = - 5"
    by (simp add: savestate_write_def b Let_def settings_current_savestate_write_internal
          od_quicksave_slot_set atoi_minus_5)
  ultimately show ?thesis using b by (simp add: isdigit_def)
qed
section \<open>The path of a slot\<close>

text \<open>
  C8, as the code has it. For every slot from 0 to 99 for which the save directory
  resolves, and provided the directory, the separator, the two digits and the extension
  together are shorter than \<open>PATH_MAX\<close>, \<open>quicksave_get_filename\<close> returns the directory,
  the separator, the two decimal digits of the slot (a leading zero below 10) and the
  configured extension, in this order and with nothing else.
\<close>

theorem quicksave_get_filename_slot:
  assumes "0 \<le> slot" "slot \<le> 99"
      and "quicksave_get_current_dir w s = Some current_dir"
      and "length current_dir + length (FUSE_DIR_SEP_STR w) + 2
             + length (od_quicksave_format (settings_current s)) < PATH_MAX w"
  shows "quicksave_get_filename w s slot =
         Some (current_dir @ FUSE_DIR_SEP_STR w
                @ [digit_char (nat slot div 10), digit_char (nat slot mod 10)]
                @ od_quicksave_format (settings_current s))"
  using assms
  by (simp add: quicksave_get_filename_eq fmt_02d_two_digits snprintf_fits)

text \<open>Slot 7 of the example: \<open>/mnt/.fuse/savestates/Game/07.szx\<close>.\<close>

theorem quicksave_get_filename_slot_witness:
  "(0::int) \<le> 7 \<and> (7::int) \<le> 99
   \<and> quicksave_get_current_dir example_world example_state = Some ''/mnt/.fuse/savestates/Game''
   \<and> length ''/mnt/.fuse/savestates/Game'' + length (FUSE_DIR_SEP_STR example_world) + 2
        + length (od_quicksave_format (settings_current example_state)) < PATH_MAX example_world
   \<and> quicksave_get_filename example_world example_state 7
        = Some ''/mnt/.fuse/savestates/Game/07.szx''"
proof -
  have fits: "length ''/mnt/.fuse/savestates/Game'' + length (FUSE_DIR_SEP_STR example_world) + 2
        + length (od_quicksave_format (settings_current example_state)) < PATH_MAX example_world"
    by (simp add: example_world_def example_state_def)
  have "digit_char 7 = CHR ''7''"
    unfolding digit_char_def by (rule of_char_eqI [where ?'a = nat]) simp
  then have "quicksave_get_filename example_world example_state 7
        = Some ''/mnt/.fuse/savestates/Game/07.szx''"
    using quicksave_get_filename_slot [OF _ _ example_dir fits, of 7]
    by (simp add: digit_char_0 example_world_def example_state_def)
  with fits example_dir show ?thesis by simp
qed

lemma long_program: "quicksave_get_current_program long_world = Some ''Game''"
  using example_program
  by (simp add: long_world_def quicksave_get_current_program_def cong: option.case_cong)

lemma long_dir:
  "quicksave_get_current_dir long_world example_state
     = Some (replicate 4079 (CHR ''a'') @ ''/savestates/Game'')"
proof -
  have "quicksave_get_current_dir long_world example_state =
        Some (snprintf (PATH_MAX long_world)
                (replicate 4079 (CHR ''a'') @ FUSE_DIR_SEP_STR long_world @ ''savestates''
                  @ FUSE_DIR_SEP_STR long_world
                  @ fmt_s (quicksave_get_current_program long_world)))"
    by (rule quicksave_get_current_dir_flat [where lf = "''/roms/Game.tap''"])
       (simp_all add: long_world_def example_world_def example_state_def)
  also have "\<dots> = Some (replicate 4079 (CHR ''a'') @ ''/savestates/Game'')"
    by (simp add: long_program fmt_s_def) (simp add: long_world_def example_world_def snprintf_def)
  finally show ?thesis .
qed

text \<open>
  C8 as stated fails where \<open>snprintf\<close> cuts the path: with a save directory of 4095
  characters the path returned for slot 7 is the directory itself, with no digits and no
  extension behind it.
\<close>

theorem quicksave_get_filename_truncated:
  "quicksave_get_current_dir long_world example_state
     = Some (replicate 4079 (CHR ''a'') @ ''/savestates/Game'')
   \<and> quicksave_get_filename long_world example_state 7
     = Some (replicate 4079 (CHR ''a'') @ ''/savestates/Game'')"
proof -
  have "quicksave_get_filename long_world example_state 7
     = Some (replicate 4079 (CHR ''a'') @ ''/savestates/Game'')"
    by (simp add: quicksave_get_filename_eq [OF long_dir])
       (simp add: long_world_def example_world_def snprintf_def)
  with long_dir show ?thesis by simp
qed

section \<open>The matcher computes the longest match\<close>

inductive_simps matches_Never [simp]: "matches Never s"
inductive_simps matches_Empty [simp]: "matches Empty s"
inductive_simps matches_OneOf [simp]: "matches (OneOf cs) s"
inductive_simps matches_Alt [simp]: "matches (Alt a b) s"
inductive_simps matches_Seq: "matches (Seq a b) s"

lemma matches_Seq_iff [simp]:
  "matches (Seq a b) s = (\<exists>u v. s = u @ v \<and> matches a u \<and> matches b v)"
  by (auto simp: matches_Seq)

lemma matches_empty_iff: "matches_empty r = matches r []"
  by (induction r) (auto intro: m_Many0)

lemma matches_alt [simp]: "matches (alt a b) s = (matches a s \<or> matches b s)"
  by (cases "(a, b)" rule: alt.cases) auto

lemma matches_seq [simp]:
  "matches (seq a b) s = (\<exists>u v. s = u @ v \<and> matches a u \<and> matches b v)"
  by (cases "(a, b)" rule: seq.cases) auto

lemma matches_Many_first:
  "matches r w \<Longrightarrow> r = Many a \<Longrightarrow> w = c # s \<Longrightarrow>
   \<exists>u v. s = u @ v \<and> matches a (c # u) \<and> matches (Many a) v"
proof (induction arbitrary: s rule: matches.induct)
  case (m_Many1 a' u t)
  show ?case
  proof (cases u)
    case Nil
    with m_Many1 show ?thesis by simp
  next
    case (Cons x u')
    with m_Many1.prems m_Many1.hyps have "s = u' @ t" "matches a (c # u')" "matches (Many a) t"
      by auto
    then show ?thesis by blast
  qed
qed simp_all

lemma matches_Many_Cons:
  "matches (Many a) (c # s) = (\<exists>u v. s = u @ v \<and> matches a (c # u) \<and> matches (Many a) v)"
proof
  assume "matches (Many a) (c # s)"
  then show "\<exists>u v. s = u @ v \<and> matches a (c # u) \<and> matches (Many a) v"
    by (rule matches_Many_first) simp_all
next
  assume "\<exists>u v. s = u @ v \<and> matches a (c # u) \<and> matches (Many a) v"
  then obtain u v where "s = u @ v" "matches a (c # u)" "matches (Many a) v" by blast
  then show "matches (Many a) (c # s)" using m_Many1 [of a "c # u" v] by simp
qed

lemma matches_after: "matches (after c r) s = matches r (c # s)"
proof (induction r arbitrary: s)
  case (Seq a b)
  show ?case
  proof (cases "matches_empty a")
    case True
    then have e: "matches a []" by (simp add: matches_empty_iff)
    show ?thesis
      using True Seq e by (auto simp: Cons_eq_append_conv) 
  next
    case False
    then have "\<not> matches a []" by (simp add: matches_empty_iff)
    with False Seq show ?thesis
      by (auto simp: Cons_eq_append_conv)
  qed
next
  case (Many a)
  then show ?case by (simp add: matches_Many_Cons)
qed auto


lemma longest_from_no_match:
  "\<forall>k\<le>length s. \<not> matches r (take k s) \<Longrightarrow> longest_from r s n best = best"
proof (induction s arbitrary: r n best)
  case Nil
  then show ?case by (simp add: matches_empty_iff)
next
  case (Cons c cs)
  from Cons.prems have "\<not> matches r (take 0 (c # cs))" by blast
  then have e: "\<not> matches_empty r" by (simp add: matches_empty_iff)
  have "\<forall>k\<le>length cs. \<not> matches (after c r) (take k cs)"
  proof (intro allI impI)
    fix k assume "k \<le> length cs"
    then have "Suc k \<le> length (c # cs)" by simp
    with Cons.prems have "\<not> matches r (take (Suc k) (c # cs))" by blast
    then show "\<not> matches (after c r) (take k cs)" by (simp add: matches_after)
  qed
  then have "longest_from (after c r) cs (Suc n) best = best" by (rule Cons.IH)
  with e show ?case by simp
qed

lemma longest_from_match:
  "longest_match r s k \<Longrightarrow> longest_from r s n best = Some (n + k)"
proof (induction s arbitrary: r n best k)
  case Nil
  then show ?case by (simp add: longest_match_def matches_empty_iff)
next
  case (Cons c cs)
  from Cons.prems have k: "k \<le> length (c # cs)" "matches r (take k (c # cs))"
    and top: "\<forall>j\<le>length (c # cs). matches r (take j (c # cs)) \<longrightarrow> j \<le> k"
    by (simp_all add: longest_match_def)
  from k(2) have live: "r \<noteq> Never" by auto
  show ?case
  proof (cases k)
    case 0
    with k(2) have e: "matches_empty r" by (simp add: matches_empty_iff)
    have "\<forall>j\<le>length cs. \<not> matches (after c r) (take j cs)"
    proof (intro allI impI notI)
      fix j assume "j \<le> length cs" "matches (after c r) (take j cs)"
      then have "Suc j \<le> length (c # cs)" "matches r (take (Suc j) (c # cs))"
        by (simp_all add: matches_after)
      with top have "Suc j \<le> k" by blast
      with 0 show False by simp
    qed
    then have "longest_from (after c r) cs (Suc n) (Some n) = Some n"
      by (rule longest_from_no_match)
    with live e 0 show ?thesis by simp
  next
    case (Suc k')
    have "longest_match (after c r) cs k'"
      unfolding longest_match_def
    proof (intro conjI allI impI)
      show "k' \<le> length cs" using k(1) Suc by simp
      show "matches (after c r) (take k' cs)" using k(2) Suc by (simp add: matches_after)
    next
      fix j assume "j \<le> length cs" "matches (after c r) (take j cs)"
      then have "Suc j \<le> length (c # cs)" "matches r (take (Suc j) (c # cs))"
        by (simp_all add: matches_after)
      with top have "Suc j \<le> k" by blast
      with Suc show "j \<le> k'" by simp
    qed
    then have "longest_from (after c r) cs (Suc n)
                 (if matches_empty r then Some n else best) = Some (Suc n + k')"
      by (rule Cons.IH)
    with live Suc show ?thesis by simp
  qed
qed

lemma longest_match_exists:
  assumes "k \<le> length s" "matches r (take k s)"
  shows "\<exists>m. longest_match r s m"
proof -
  let ?S = "{j. j \<le> length s \<and> matches r (take j s)}"
  have fin: "finite ?S" by simp
  have ne: "?S \<noteq> {}" using assms by blast
  have "Max ?S \<in> ?S" using fin ne by (rule Max_in)
  moreover have "\<forall>j\<le>length s. matches r (take j s) \<longrightarrow> j \<le> Max ?S"
    using fin by (simp add: Max_ge)
  ultimately have "longest_match r s (Max ?S)"
    unfolding longest_match_def by blast
  then show ?thesis ..
qed

text \<open>
  \<open>regexec_at\<close> is the longest match at the start of the string: it gives \<open>Some k\<close>
  exactly when the first \<open>k\<close> characters match the expression and no more of them do,
  and \<open>None\<close> exactly when no beginning of the string matches.
\<close>

lemma regexec_at_Some: "(regexec_at r s = Some k) = longest_match r s k"
proof
  assume l: "longest_match r s k"
  then show "regexec_at r s = Some k"
    using longest_from_match [OF l, of 0 None] by (simp add: regexec_at_def)
next
  assume a: "regexec_at r s = Some k"
  show "longest_match r s k"
  proof (cases "\<exists>j\<le>length s. matches r (take j s)")
    case True
    then obtain m where m: "longest_match r s m" using longest_match_exists by blast
    then have "regexec_at r s = Some m"
      using longest_from_match [OF m, of 0 None] by (simp add: regexec_at_def)
    with a m show ?thesis by simp
  next
    case False
    then have "regexec_at r s = None"
      using longest_from_no_match [of s r 0 None] by (simp add: regexec_at_def)
    with a show ?thesis by simp
  qed
qed

lemma regexec_at_None: "(regexec_at r s = None) = (\<forall>k\<le>length s. \<not> matches r (take k s))"
proof
  assume "\<forall>k\<le>length s. \<not> matches r (take k s)"
  then show "regexec_at r s = None"
    using longest_from_no_match [of s r 0 None] by (simp add: regexec_at_def)
next
  assume a: "regexec_at r s = None"
  show "\<forall>k\<le>length s. \<not> matches r (take k s)"
  proof (intro allI impI notI)
    fix k assume "k \<le> length s" "matches r (take k s)"
    then obtain m where "longest_match r s m" using longest_match_exists by blast
    then have "regexec_at r s = Some m" by (simp add: regexec_at_Some)
    with a show False by simp
  qed
qed

section \<open>The name sanitizer\<close>

lemma matches_alphabet: "matches r s \<Longrightarrow> set s \<subseteq> alphabet r"
  by (induction rule: matches.induct) auto

lemma matches_Many_chars: "\<forall>c\<in>set s. matches r [c] \<Longrightarrow> matches (Many r) s"
proof (induction s)
  case Nil
  show ?case by (rule m_Many0)
next
  case (Cons c s)
  then have "matches r [c]" "matches (Many r) s" by simp_all
  then have "matches (Many r) ([c] @ s)" by (rule m_Many1)
  then show ?case by simp
qed

lemma matches_Many_class: "set s \<subseteq> set cs \<Longrightarrow> matches (Many (OneOf cs)) s"
  by (rule matches_Many_chars) auto

lemma matches_Many_classes:
  "set s \<subseteq> set a \<union> set b \<Longrightarrow> matches (Many (Alt (OneOf a) (OneOf b))) s"
  by (rule matches_Many_chars) auto

lemma matches_icase: "list_all2 same_letter keyword word \<Longrightarrow> matches (icase word) keyword"
proof (induction word arbitrary: keyword rule: icase.induct)
  case 1
  then show ?case by simp
next
  case (2 c)
  then obtain k where "keyword = [k]" "same_letter k c"
    by (auto simp: list_all2_Cons2)
  then show ?case by (auto simp: same_letter_def)
next
  case (3 c d cs)
  from "3.prems" obtain k ks where k: "keyword = k # ks" "same_letter k c"
    "list_all2 same_letter ks (d # cs)"
    by (auto simp: list_all2_Cons2)
  from k(3) have "matches (icase (d # cs)) ks" by (rule "3.IH")
  moreover have "matches (OneOf [c, char_of (of_char c - (32::nat))]) [k]"
    using k(2) by (auto simp: same_letter_def)
  ultimately have "matches (Seq (OneOf [c, char_of (of_char c - (32::nat))]) (icase (d # cs)))
                     ([k] @ ks)"
    by (rule m_Seq [rotated])
  with k(1) show ?case by simp
qed

lemma matches_of_parts:
  "of_parts ofs \<Longrightarrow>
   matches (Many (Seq (Many space) (Seq (icase ''of'') (Seq (Many space) (OneOf ''1234''))))) ofs"
proof (induction rule: of_parts.induct)
  case of_none
  show ?case by (rule m_Many0)
next
  case (of_more sp word sp' n rest)
  have 1: "matches (Many space) sp" "matches (Many space) sp'"
    using of_more.hyps by (simp_all add: space_def matches_Many_class)
  have 2: "matches (icase ''of'') word"
    using of_more.hyps by (simp only: matches_icase)
  have 3: "matches (OneOf ''1234'') [n]"
    using of_more.hyps by simp
  have "matches (Seq (Many space) (Seq (icase ''of'') (Seq (Many space) (OneOf ''1234''))))
          (sp @ word @ sp' @ [n])"
    using 1 2 3 by (intro m_Seq)
  then have "matches (Many (Seq (Many space) (Seq (icase ''of'') (Seq (Many space) (OneOf ''1234'')))))
          ((sp @ word @ sp' @ [n]) @ rest)"
    using of_more.IH by (rule m_Many1)
  then show ?case by simp
qed

lemma matches_keyword:
  assumes "list_all2 same_letter keyword ''disk'' \<or> list_all2 same_letter keyword ''tape''
            \<or> list_all2 same_letter keyword ''side'' \<or> list_all2 same_letter keyword ''part''"
  shows "matches re_group_3 keyword"
  unfolding re_group_3_def using assms matches_icase by (auto simp only: matches_Alt)

text \<open>Every qualifier of the shape the spec describes is matched by the pattern, as a whole.\<close>

lemma qualifier_matches: "qualifier q \<Longrightarrow> matches re_qualifier q"
proof -
  assume "qualifier q"
  then obtain lead bra sp keyword seps ident ofs sp' ket trail where
    q: "q = lead @ bra @ sp @ keyword @ seps @ [ident] @ ofs @ sp' @ ket @ trail"
    and lead: "set lead \<subseteq> set space_chars \<union> {CHR ''-'', CHR ''_''}"
    and bra: "set bra \<subseteq> {CHR ''('', CHR ''[''}"
    and sp: "set sp \<subseteq> set space_chars"
    and keyword: "list_all2 same_letter keyword ''disk'' \<or> list_all2 same_letter keyword ''tape''
            \<or> list_all2 same_letter keyword ''side'' \<or> list_all2 same_letter keyword ''part''"
    and seps: "set seps \<subseteq> set space_chars \<union> set punct_chars"
    and ident: "ident \<in> set ''abcd1234ABCD''"
    and ofs: "of_parts ofs"
    and sp': "set sp' \<subseteq> set space_chars"
    and ket: "set ket \<subseteq> {CHR '')'', CHR '']''}"
    and trail: "set trail \<subseteq> set space_chars \<union> {CHR ''-'', CHR ''_''}"
    unfolding qualifier_def by blast
  have g1: "matches re_group_1 lead"
    unfolding re_group_1_def space_def using lead by (intro matches_Many_classes) simp
  have g2: "matches re_group_2 (bra @ sp)"
    unfolding re_group_2_def space_def using bra sp
    by (intro m_Seq matches_Many_classes matches_Many_class) auto
  have g3: "matches re_group_3 keyword"
    using keyword by (rule matches_keyword)
  have g4: "matches re_group_4 seps"
    unfolding re_group_4_def space_def punct_def using seps by (intro matches_Many_classes)
  have g5: "matches re_group_5 ([ident] @ ofs)"
    unfolding re_group_5_def using ident ofs
    by (intro m_Seq matches_of_parts m_OneOf)
  have g6: "matches re_group_6 (sp' @ ket)"
    unfolding re_group_6_def space_def using sp' ket
    by (intro m_Seq matches_Many_classes matches_Many_class) auto
  have g7: "matches re_group_7 trail"
    unfolding re_group_7_def space_def using trail by (intro matches_Many_classes) simp
  have "matches re_qualifier
          (lead @ (bra @ sp) @ keyword @ seps @ ([ident] @ ofs) @ (sp' @ ket) @ trail)"
    unfolding re_qualifier_def using g1 g2 g3 g4 g5 g6 g7 by (intro m_Seq)
  then show ?thesis by (simp add: q)
qed


lemma icase_matches: "matches (icase word) keyword \<Longrightarrow> list_all2 same_letter keyword word"
proof (induction word arbitrary: keyword rule: icase.induct)
  case 1
  then show ?case by simp
next
  case (2 c)
  then show ?case by (auto simp: same_letter_def)
next
  case (3 c d cs)
  from "3.prems" obtain k ks where "keyword = k # ks"
    "k = c \<or> k = char_of (of_char c - (32::nat))" "matches (icase (d # cs)) ks"
    by auto
  with "3.IH" show ?case by (simp add: same_letter_def)
qed

lemma of_parts_matches:
  "matches r ofs \<Longrightarrow>
   r = Many (Seq (Many space) (Seq (icase ''of'') (Seq (Many space) (OneOf ''1234'')))) \<Longrightarrow>
   of_parts ofs"
proof (induction rule: matches.induct)
  case (m_Many0 a)
  show ?case by (rule of_none)
next
  case (m_Many1 a s t)
  then have a: "a = Seq (Many space) (Seq (icase ''of'') (Seq (Many space) (OneOf ''1234'')))"
    by simp
  with m_Many1.hyps(1) obtain sp word sp' n where
    s: "s = sp @ word @ sp' @ [n]" and sp: "matches (Many space) sp"
    and word: "matches (icase ''of'') word" and sp': "matches (Many space) sp'"
    and n: "n \<in> set ''1234''"
    by (auto simp del: icase.simps)
  have "set sp \<subseteq> set space_chars" "set sp' \<subseteq> set space_chars"
    using matches_alphabet [OF sp] matches_alphabet [OF sp'] by (simp_all add: space_def)
  moreover have "list_all2 same_letter word ''of''" using word by (rule icase_matches)
  moreover have "of_parts t" using m_Many1 by simp
  ultimately have "of_parts (sp @ word @ sp' @ [n] @ t)" using n by (intro of_more)
  then show ?case by (simp add: s)
qed simp_all

text \<open>Every string that the pattern matches as a whole is a qualifier of that shape.\<close>

lemma matches_qualifier: "matches re_qualifier q \<Longrightarrow> qualifier q"
proof -
  assume "matches re_qualifier q"
  then obtain lead g2 keyword seps g5 g6 trail where
    q: "q = lead @ g2 @ keyword @ seps @ g5 @ g6 @ trail"
    and 1: "matches re_group_1 lead" and 2: "matches re_group_2 g2"
    and 3: "matches re_group_3 keyword" and 4: "matches re_group_4 seps"
    and 5: "matches re_group_5 g5" and 6: "matches re_group_6 g6"
    and 7: "matches re_group_7 trail"
    unfolding re_qualifier_def by (auto simp only: matches_Seq_iff)
  from 2 obtain bra sp where g2: "g2 = bra @ sp"
    and bra: "matches (Many (Alt (OneOf ''('') (OneOf ''[''))) bra" and sp: "matches (Many space) sp"
    unfolding re_group_2_def by (auto simp only: matches_Seq_iff)
  from 5 obtain ident ofs where g5: "g5 = [ident] @ ofs" and ident: "ident \<in> set ''abcd1234ABCD''"
    and ofs: "matches (Many (Seq (Many space) (Seq (icase ''of'')
                 (Seq (Many space) (OneOf ''1234''))))) ofs"
    unfolding re_group_5_def by (auto simp only: matches_Seq_iff matches_OneOf)
  from 6 obtain sp' ket where g6: "g6 = sp' @ ket" and sp': "matches (Many space) sp'"
    and ket: "matches (Many (Alt (OneOf '')'') (OneOf '']''))) ket"
    unfolding re_group_6_def by (auto simp only: matches_Seq_iff)
  have k: "list_all2 same_letter keyword ''disk'' \<or> list_all2 same_letter keyword ''tape''
            \<or> list_all2 same_letter keyword ''side'' \<or> list_all2 same_letter keyword ''part''"
    using 3 icase_matches unfolding re_group_3_def by (auto simp only: matches_Alt)
  have "set lead \<subseteq> set space_chars \<union> {CHR ''-'', CHR ''_''}"
    using matches_alphabet [OF 1] by (auto simp: re_group_1_def space_def)
  moreover have "set bra \<subseteq> {CHR ''('', CHR ''[''}"
    using matches_alphabet [OF bra] by auto
  moreover have "set sp \<subseteq> set space_chars" "set sp' \<subseteq> set space_chars"
    using matches_alphabet [OF sp] matches_alphabet [OF sp'] by (simp_all add: space_def)
  moreover have "set seps \<subseteq> set space_chars \<union> set punct_chars"
    using matches_alphabet [OF 4] by (auto simp: re_group_4_def space_def punct_def)
  moreover have "of_parts ofs" using ofs by (rule of_parts_matches) simp
  moreover have "set ket \<subseteq> {CHR '')'', CHR '']''}"
    using matches_alphabet [OF ket] by auto
  moreover have "set trail \<subseteq> set space_chars \<union> {CHR ''-'', CHR ''_''}"
    using matches_alphabet [OF 7] by (auto simp: re_group_7_def space_def)
  moreover have "q = lead @ bra @ sp @ keyword @ seps @ [ident] @ ofs @ sp' @ ket @ trail"
    by (simp add: q g2 g5 g6)
  ultimately show ?thesis
    unfolding qualifier_def using k ident by blast
qed

text \<open>The qualifiers are exactly the strings that the pattern matches as a whole.\<close>

lemma qualifier_iff: "qualifier q = matches re_qualifier q"
  using qualifier_matches matches_qualifier by blast













































end
